theory Spec2Isabelle
  imports Complex_Main
begin

section \<open>Relay records and identity keys (hedge.py)\<close>

text \<open>
  Python floats are idealised as real numbers throughout; Python's unbounded integers
  are \<open>int\<close>. A JSON number keeps the form it was written in, because \<open>str\<close> of
  an integer (\<open>100\<close>) and of a float (\<open>100.0\<close>) differ and the relay identifiers
  are built by string formatting.
\<close>

datatype jnum = JInt int | JFloat real

text \<open>Python's \<open>float(x)\<close> on a JSON number.\<close>

fun float_of :: "jnum \<Rightarrow> real" where
  "float_of (JInt i) = real_of_int i"
| "float_of (JFloat r) = r"

text \<open>
  One decoded line of the relay file, with the fields hedge.py reads.
  \<open>fees_earned_asset\<close> and \<open>fees_asset\<close> are read with \<open>dict.get\<close>, so they
  may be absent (\<open>None\<close>).
\<close>

record fill =
  timestamp :: jnum
  base_asset :: string
  side :: string
  amount :: jnum
  price :: jnum
  fees_earned_asset :: "real option"
  fees_asset :: "string option"

text \<open>
  The identifiers are the f-strings \<open>asset_amount_price_timestamp\<close>. The three
  numeric parts contain no underscore, so two such strings are equal exactly when
  the four parts are equal as printed; a printed part is a \<open>jnum\<close>. The tuple
  stands for the string.
\<close>

type_synonym trade_key = "string \<times> jnum \<times> jnum \<times> jnum"

text \<open>Line 532: the timestamp part is \<open>fill_time\<close>, the value already converted to float.\<close>

definition trade_id :: "fill \<Rightarrow> trade_key" where
  "trade_id f = (base_asset f, amount f, price f, JFloat (float_of (timestamp f)))"

text \<open>Lines 543 and 558: the timestamp part is the raw field of the record.\<close>

definition buffered_trade_id :: "fill \<Rightarrow> trade_key" where
  "buffered_trade_id f = (base_asset f, amount f, price f, timestamp f)"

definition fill_time :: "fill \<Rightarrow> real" where
  "fill_time f = float_of (timestamp f)"

section \<open>The order-fill scan of the hedge main loop\<close>

text \<open>
  The exceptions of the model. \<open>HedgeError\<close> stands for any exception that leaves
  \<open>process_order_fill\<close>.
\<close>

datatype error =
    FileNotFoundError
  | JSONDecodeError
  | HedgeError
  | TypeError
  | ValueError
  | ZeroDivisionError

text \<open>
  A line of the relay file: a record, or text that \<open>json.loads\<close> (or the read of
  a field) rejects.
\<close>

datatype line = Rec fill | Malformed

text \<open>
  What a scan does, in order. \<open>Processed\<close> is a call of \<open>process_order_fill\<close>,
  \<open>Saved\<close> a call of \<open>save_last_processed_time\<close>, \<open>Raised\<close> an exception that
  ends the scan. \<open>Buffered\<close> and \<open>Skipped\<close> mark two branches that have no effect
  outside the loop: a record entering \<open>trades_buffer\<close>, and a buffered record whose
  identifier is already in \<open>processed_trades\<close>.
\<close>

datatype event =
    Buffered fill
  | Processed fill
  | Skipped fill
  | Saved real
  | Raised error

text \<open>
  The variables of \<open>main\<close> that the scan reads and writes, the checkpoint file, and
  the trace of events.
\<close>

record hedge_state =
  processed_trades :: "trade_key set"
  last_processed_time :: real
  checkpoint_file :: "real option"
  trades_buffer :: "fill list"
  current_timestamp :: "real option"
  new_fills_count :: nat
  trace :: "event list"

text \<open>
  The surroundings of the scan: the time the process started, and whether a call of
  \<open>process_order_fill\<close> returns (rather than raises), which may depend on all
  that happened before.
\<close>

record env =
  script_start_time :: real
  hedge_returns :: "event list \<Rightarrow> fill \<Rightarrow> bool"

text \<open>
  Lines 542-548 and 557-563: the loop over \<open>reversed(trades_buffer)\<close>; the caller
  passes the reversed list. An exception leaves the state as it is at that point.
\<close>

fun process_buffered ::
  "env \<Rightarrow> fill list \<Rightarrow> hedge_state \<Rightarrow> (error \<times> hedge_state) + hedge_state" where
  "process_buffered e [] s = Inr s"
| "process_buffered e (b # bs) s =
     (if buffered_trade_id b \<notin> processed_trades s then
        (if hedge_returns e (trace s) b then
           process_buffered e bs
             (s\<lparr>processed_trades := insert (buffered_trade_id b) (processed_trades s),
                new_fills_count := Suc (new_fills_count s),
                trace := trace s @ [Processed b]\<rparr>)
         else Inl (HedgeError, s\<lparr>trace := trace s @ [Processed b]\<rparr>))
      else process_buffered e bs (s\<lparr>trace := trace s @ [Skipped b]\<rparr>))"

text \<open>
  Lines 529-554: the loop over \<open>reversed(lines)\<close>; the caller passes the reversed
  list. \<open>last_processed_time\<close> is not assigned inside the loop. The source first
  sets \<open>current_timestamp\<close> to \<open>fill_time\<close> when it is \<open>None\<close> and then compares
  the two; the record is appended exactly when \<open>current_timestamp\<close> was \<open>None\<close> or
  equal to \<open>fill_time\<close>. An exception while a line is decoded or its fields are
  read ends the scan in the same way, whatever its class.
\<close>

fun scan_lines ::
  "env \<Rightarrow> line list \<Rightarrow> hedge_state \<Rightarrow> (error \<times> hedge_state) + hedge_state" where
  "scan_lines e [] s = Inr s"
| "scan_lines e (Malformed # ls) s = Inl (JSONDecodeError, s)"
| "scan_lines e (Rec f # ls) s =
     (if fill_time f > max (last_processed_time s) (script_start_time e)
         \<and> trade_id f \<notin> processed_trades s then
        (if current_timestamp s = None \<or> current_timestamp s = Some (fill_time f) then
           scan_lines e ls
             (s\<lparr>current_timestamp := Some (fill_time f),
                trades_buffer := trades_buffer s @ [f],
                trace := trace s @ [Buffered f]\<rparr>)
         else
           (case process_buffered e (rev (trades_buffer s)) s of
              Inl err \<Rightarrow> Inl err
            | Inr s1 \<Rightarrow>
                scan_lines e ls
                  (s1\<lparr>trades_buffer := [f],
                      current_timestamp := Some (fill_time f),
                      trace := trace s1 @ [Buffered f]\<rparr>)))
      else if fill_time f \<le> script_start_time e then Inr s
      else scan_lines e ls s)"

text \<open>
  Lines 565-567. \<open>current_timestamp\<close> is \<open>None\<close> only if nothing was buffered; then
  \<open>float(None)\<close> in \<open>save_last_processed_time\<close> would raise.
\<close>

definition save_checkpoint :: "hedge_state \<Rightarrow> hedge_state" where
  "save_checkpoint s =
     (if new_fills_count s > 0 then
        (case current_timestamp s of
           None \<Rightarrow> s\<lparr>trace := trace s @ [Raised TypeError]\<rparr>
         | Some t \<Rightarrow>
             s\<lparr>last_processed_time := t, checkpoint_file := Some t,
               trace := trace s @ [Saved t]\<rparr>)
      else s)"

definition raised :: "error \<times> hedge_state \<Rightarrow> hedge_state" where
  "raised r = (snd r)\<lparr>trace := trace (snd r) @ [Raised (fst r)]\<rparr>"

text \<open>
  Lines 522-574: one pass over the relay file (\<open>None\<close>: the file does not exist).
  Every exception is caught by the main loop, which goes on with the state as it is.
\<close>

definition order_fill_scan :: "env \<Rightarrow> line list option \<Rightarrow> hedge_state \<Rightarrow> hedge_state" where
  "order_fill_scan e file s =
     (case file of
        None \<Rightarrow> s\<lparr>trace := trace s @ [Raised FileNotFoundError]\<rparr>
      | Some lines \<Rightarrow>
          (case scan_lines e (rev lines)
                  (s\<lparr>new_fills_count := 0, trades_buffer := [], current_timestamp := None\<rparr>) of
             Inl err \<Rightarrow> raised err
           | Inr s1 \<Rightarrow>
               (case process_buffered e (rev (trades_buffer s1)) s1 of
                  Inl err \<Rightarrow> raised err
                | Inr s2 \<Rightarrow> save_checkpoint s2)))"

text \<open>The main loop, run over the successive contents of the relay file.\<close>

fun run :: "env \<Rightarrow> line list option list \<Rightarrow> hedge_state \<Rightarrow> hedge_state" where
  "run e [] s = s"
| "run e (file # files) s = run e files (order_fill_scan e file s)"

text \<open>
  Lines 489 and 502: the state at the start of \<open>main\<close>;
  \<open>load_last_processed_time\<close> gives 0.0 when there is no checkpoint file.
\<close>

definition initial_state :: "real option \<Rightarrow> hedge_state" where
  "initial_state checkpoint =
     \<lparr>processed_trades = {},
      last_processed_time = (case checkpoint of None \<Rightarrow> 0 | Some t \<Rightarrow> t),
      checkpoint_file = checkpoint,
      trades_buffer = [], current_timestamp = None, new_fills_count = 0,
      trace = []\<rparr>"

text \<open>The records handed to \<open>process_order_fill\<close>, in order.\<close>

fun delivered :: "event list \<Rightarrow> fill list" where
  "delivered [] = []"
| "delivered (Processed f # evs) = f # delivered evs"
| "delivered (ev # evs) = delivered evs"

text \<open>The values written to the checkpoint file, in order.\<close>

fun saves :: "event list \<Rightarrow> real list" where
  "saves [] = []"
| "saves (Saved t # evs) = t # saves evs"
| "saves (ev # evs) = saves evs"

subsection \<open>Observations and invariants of a run\<close>






text \<open>
  The events of a scan that concern one record; the invariant of the loop of a scan
  over the events \<open>evs\<close> it has produced so far (every buffered record is still in
  the buffer or was handed over or skipped, and once something is buffered or counted,
  \<open>current_timestamp\<close> is the timestamp of a buffered record newer than the
  checkpoint \<open>l\<close>); and the invariant of the main loop on the checkpoint.
\<close>

fun is_fill_event :: "event \<Rightarrow> bool" where
  "is_fill_event (Buffered f) = True"
| "is_fill_event (Processed f) = True"
| "is_fill_event (Skipped f) = True"
| "is_fill_event ev = False"

definition scan_inv :: "real \<Rightarrow> event list \<Rightarrow> hedge_state \<Rightarrow> bool" where
  "scan_inv l evs s \<longleftrightarrow>
     list_all is_fill_event evs
     \<and> (\<forall>f. Buffered f \<in> set evs \<longrightarrow>
           f \<in> set (trades_buffer s) \<or> Processed f \<in> set evs \<or> Skipped f \<in> set evs)
     \<and> (0 < new_fills_count s \<or> trades_buffer s \<noteq> [] \<longrightarrow>
          (\<exists>f. Buffered f \<in> set evs \<and> current_timestamp s = Some (fill_time f)
               \<and> l < fill_time f))"

definition checkpoint_inv :: "real \<Rightarrow> hedge_state \<Rightarrow> bool" where
  "checkpoint_inv l0 s \<longleftrightarrow>
     sorted_wrt (<) (l0 # saves (trace s))
     \<and> last (l0 # saves (trace s)) = last_processed_time s"

section \<open>The hedge engine (hedge.py)\<close>

text \<open>
  A row of the table \<open>trades\<close> and a row of the table \<open>trade_pairs\<close>. The columns
  \<open>timestamp\<close> (the clock at the insert) and \<open>matched\<close>, \<open>processed\<close> (always 0)
  are left out. With \<open>AUTOINCREMENT\<close> and no delete anywhere, the id of a row is its
  position in the table, counted from 1.
\<close>

record trade_row =
  tr_exchange :: string
  tr_asset :: string
  tr_side :: string
  tr_amount :: real
  tr_price :: real
  tr_fees_earned :: "real option"
  tr_fees_asset :: "string option"

record pair_row =
  tp_asset :: string
  chainflip_id :: "nat option"
  hyperliquid_id :: nat
  chainflip_amount :: real
  chainflip_price :: real
  hyperliquid_amount :: real
  hyperliquid_price :: real
  tp_fees_earned :: real
  pnl :: real
  pnl_percentage :: real

text \<open>The arguments of \<open>exchange.order\<close> (the order type is always limit, Gtc).\<close>

record order_request =
  coin :: string
  is_buy :: bool
  sz :: real
  limit_px :: real

text \<open>
  One entry of \<open>statuses\<close> in the venue's answer: \<open>resting\<close> with its order id,
  \<open>filled\<close> with \<open>totalSz\<close> and \<open>avgPx\<close>, \<open>error\<close>, or anything else.
\<close>

datatype order_status = Resting nat | Filled real real | StatusError | OtherStatus

text \<open>
  What \<open>exchange.order\<close> does: it returns \<open>None\<close>, a result whose status is not
  \<open>ok\<close>, a result with its statuses, or it raises (a transport failure, or a result
  without the expected fields).
\<close>

datatype venue_result = NoResult | NotOk | Ok "order_status list" | Raises

record engine_state =
  trades :: "trade_row list"
  trade_pairs :: "pair_row list"
  orders :: "order_request list"
  leverage_updates :: "(string \<times> nat) list"
  db_calls :: nat

text \<open>
  The configuration and the outside world of the engine. \<open>py_round\<close> is Python's
  \<open>round(x, n)\<close> and \<open>format_5g\<close> is \<open>float(f"{x:.5g}")\<close>; both are functions of
  the float library and stay parameters. \<open>exchange_order\<close> is the venue: its answer
  to a request, given the requests sent before. \<open>db_accepts n\<close> tells whether the insert
  number \<open>n\<close> succeeds (otherwise sqlite raises and the function logs the error).
  Messages to Telegram and the log are not modelled.
\<close>

record engine_env =
  sz_decimals :: "string \<rightharpoonup> int"
  price_adjustment_bps :: "string \<rightharpoonup> (string \<rightharpoonup> real)"
  py_round :: "real \<Rightarrow> int \<Rightarrow> real"
  format_5g :: "real \<Rightarrow> real"
  exchange_order :: "order_request list \<Rightarrow> order_request \<Rightarrow> venue_result"
  db_accepts :: "nat \<Rightarrow> bool"

definition round_size :: "engine_env \<Rightarrow> real \<Rightarrow> int \<Rightarrow> real" where
  "round_size v x d = py_round v x d"

definition round_price :: "engine_env \<Rightarrow> real \<Rightarrow> real" where
  "round_price v p = py_round v (format_5g v p) 6"

text \<open>
  \<open>record_trade\<close> returns \<open>c.lastrowid\<close>, or \<open>None\<close> when the insert raised.
  A Hyperliquid row has no fees.
\<close>

definition record_trade ::
  "engine_env \<Rightarrow> string \<Rightarrow> string \<Rightarrow> string \<Rightarrow> real \<Rightarrow> real \<Rightarrow> real option \<Rightarrow> string option
     \<Rightarrow> engine_state \<Rightarrow> nat option \<times> engine_state" where
  "record_trade v exchange asset sd amt px fees fasset s =
     (if db_accepts v (db_calls s) then
        (Some (Suc (length (trades s))),
         s\<lparr>trades := trades s @
              [if exchange = ''Chainflip'' then
                 \<lparr>tr_exchange = exchange, tr_asset = asset, tr_side = sd, tr_amount = amt,
                  tr_price = px, tr_fees_earned = fees, tr_fees_asset = fasset\<rparr>
               else
                 \<lparr>tr_exchange = exchange, tr_asset = asset, tr_side = sd, tr_amount = amt,
                  tr_price = px, tr_fees_earned = None, tr_fees_asset = None\<rparr>],
           db_calls := Suc (db_calls s)\<rparr>)
      else (None, s\<lparr>db_calls := Suc (db_calls s)\<rparr>))"

definition insert_trade_pair :: "engine_env \<Rightarrow> pair_row \<Rightarrow> engine_state \<Rightarrow> engine_state" where
  "insert_trade_pair v row s =
     (if db_accepts v (db_calls s) then
        s\<lparr>trade_pairs := trade_pairs s @ [row], db_calls := Suc (db_calls s)\<rparr>
      else s\<lparr>db_calls := Suc (db_calls s)\<rparr>)"

text \<open>
  Lines 238-257: the loop over \<open>statuses\<close> returns at the first entry that is
  \<open>resting\<close> or \<open>filled\<close>; an \<open>error\<close> entry is reported and the loop goes on.
\<close>

fun first_accepted :: "order_status list \<Rightarrow> order_status option" where
  "first_accepted [] = None"
| "first_accepted (Resting oid # sts) = Some (Resting oid)"
| "first_accepted (Filled fs fp # sts) = Some (Filled fs fp)"
| "first_accepted (st # sts) = first_accepted sts"

text \<open>
  \<open>execute_perpetual_order\<close>; the result is the id of the Hyperliquid trade row, or
  \<open>None\<close>. The side is \<open>''buy''\<close> or \<open>''sell''\<close> at the only call, so
  \<open>side.lower() == "buy"\<close> is the comparison with \<open>''buy''\<close>.
\<close>

definition execute_perpetual_order ::
  "engine_env \<Rightarrow> string \<Rightarrow> string \<Rightarrow> real \<Rightarrow> real \<Rightarrow> engine_state
     \<Rightarrow> nat option \<times> engine_state" where
  "execute_perpetual_order v symbol sd amt px s =
     (let s1 = s\<lparr>leverage_updates := leverage_updates s @ [(symbol, 1)]\<rparr> in
      case sz_decimals v symbol of
        None \<Rightarrow> (None, s1)
      | Some d \<Rightarrow>
          (let rounded_amount = round_size v amt d;
               rounded_price = round_price v px;
               req = \<lparr>coin = symbol, is_buy = (sd = ''buy''), sz = rounded_amount,
                      limit_px = rounded_price\<rparr>;
               s2 = s1\<lparr>orders := orders s1 @ [req]\<rparr>
           in if rounded_amount = 0 then (None, s1)
              else
                (case exchange_order v (orders s1) req of
                   NoResult \<Rightarrow> (None, s2)
                 | NotOk \<Rightarrow> (None, s2)
                 | Raises \<Rightarrow> (None, s2)
                 | Ok statuses \<Rightarrow>
                     (case first_accepted statuses of
                        Some (Resting oid) \<Rightarrow>
                          record_trade v ''Hyperliquid'' symbol sd rounded_amount rounded_price
                            None None s2
                      | Some (Filled filled_amount filled_price) \<Rightarrow>
                          record_trade v ''Hyperliquid'' symbol sd filled_amount filled_price
                            None None s2
                      | _ \<Rightarrow> (None, s2)))))"

text \<open>
  The answers after which \<open>execute_perpetual_order\<close> records a Hyperliquid trade:
  a result with status \<open>ok\<close> whose statuses hold a \<open>resting\<close> or \<open>filled\<close> entry.
\<close>

fun accepted :: "venue_result \<Rightarrow> bool" where
  "accepted (Ok statuses) = (first_accepted statuses \<noteq> None)"
| "accepted r = False"

text \<open>\<open>PRICE_ADJUSTMENT_BPS.get(symbol, {}).get(side, default)\<close>.\<close>

definition adjustment_bps_of :: "engine_env \<Rightarrow> string \<Rightarrow> string \<Rightarrow> real \<Rightarrow> real" where
  "adjustment_bps_of v symbol sd dflt =
     (case price_adjustment_bps v symbol of
        None \<Rightarrow> dflt
      | Some m \<Rightarrow> (case m sd of None \<Rightarrow> dflt | Some b \<Rightarrow> b))"

definition hedging_symbol_of :: "string \<Rightarrow> string" where
  "hedging_symbol_of symbol = (if symbol = ''ARBITRUM_ETH'' then ''ETH'' else symbol)"

text \<open>
  \<open>process_order_fill\<close>. The test \<open>if hyperliquid_trade_id\<close> fails for \<open>None\<close>
  and for 0. The function raises \<open>TypeError\<close> when the record has no
  \<open>fees_earned_asset\<close> (the product or the sum with \<open>None\<close>) and
  \<open>ZeroDivisionError\<close> when the trade value is zero; both only after the hedge order
  was placed and recorded.
\<close>

definition process_order_fill ::
  "engine_env \<Rightarrow> fill \<Rightarrow> engine_state \<Rightarrow> (error \<times> engine_state) + engine_state" where
  "process_order_fill v fl s =
     (let symbol = base_asset fl;
          chainflip_side = side fl;
          amt = float_of (amount fl);
          chainflip_price = float_of (price fl);
          fees_earned = fees_earned_asset fl;
          fasset = fees_asset fl;
          hedging_symbol = hedging_symbol_of symbol;
          r1 = record_trade v ''Chainflip'' symbol chainflip_side amt chainflip_price
                 fees_earned fasset s;
          chainflip_trade_id = fst r1;
          s1 = snd r1
      in case sz_decimals v hedging_symbol of
           None \<Rightarrow> Inr s1
         | Some d \<Rightarrow>
             (let rounded_amount = round_size v amt d;
                  hyperliquid_side = (if chainflip_side = ''buy'' then ''sell'' else ''buy'');
                  adjustment_bps =
                    (if chainflip_side = ''buy''
                     then adjustment_bps_of v hedging_symbol ''sell'' (- 5)
                     else adjustment_bps_of v hedging_symbol ''buy'' 16);
                  adjustment_factor = 1 + adjustment_bps / 10000;
                  adjusted_price = round_price v (chainflip_price * adjustment_factor);
                  r2 = execute_perpetual_order v hedging_symbol hyperliquid_side
                         rounded_amount adjusted_price s1;
                  hyperliquid_trade_id = fst r2;
                  s2 = snd r2
              in case hyperliquid_trade_id of
                   None \<Rightarrow> Inr s2
                 | Some hid \<Rightarrow>
                     if hid = 0 then Inr s2
                     else
                       (case fees_earned of
                          None \<Rightarrow> Inl (TypeError, s2)
                        | Some fee \<Rightarrow>
                            (let pnl0 =
                                   (if chainflip_side = ''buy''
                                    then (adjusted_price - chainflip_price) * amt
                                    else (chainflip_price - adjusted_price) * amt);
                                 fees_in_usdc =
                                   (if fasset = Some symbol then fee * chainflip_price else fee);
                                 pnl1 = pnl0 + fees_in_usdc;
                                 trade_value = chainflip_price * amt
                             in if trade_value = 0 then Inl (ZeroDivisionError, s2)
                                else
                                  Inr (insert_trade_pair v
                                         \<lparr>tp_asset = symbol, chainflip_id = chainflip_trade_id,
                                          hyperliquid_id = hid,
                                          chainflip_amount = amt,
                                          chainflip_price = chainflip_price,
                                          hyperliquid_amount = rounded_amount,
                                          hyperliquid_price = adjusted_price,
                                          tp_fees_earned = fees_in_usdc, pnl = pnl1,
                                          pnl_percentage = pnl1 / trade_value * 100\<rparr>
                                         s2)))))"

text \<open>The state a call leaves behind, whether it returned or raised.\<close>

definition state_after :: "(error \<times> 's) + 's \<Rightarrow> 's" where
  "state_after r = (case r of Inl x \<Rightarrow> snd x | Inr s \<Rightarrow> s)"

text \<open>The Chainflip row that \<open>process_order_fill\<close> hands to \<open>record_trade\<close>.\<close>

definition origin_row :: "fill \<Rightarrow> trade_row" where
  "origin_row fl =
     \<lparr>tr_exchange = ''Chainflip'', tr_asset = base_asset fl, tr_side = side fl,
      tr_amount = float_of (amount fl), tr_price = float_of (price fl),
      tr_fees_earned = fees_earned_asset fl, tr_fees_asset = fees_asset fl\<rparr>"

subsection \<open>Parts of \<open>process_order_fill\<close>\<close>

text \<open>
  Names for expressions of \<open>process_order_fill\<close>, used to state its properties: the
  insert of the Chainflip row, the adjusted price, the fees in USDC, the PnL, the call
  of \<open>execute_perpetual_order\<close> and the row handed to \<open>insert_trade_pair\<close>.
\<close>

definition origin_insert :: "engine_env \<Rightarrow> fill \<Rightarrow> engine_state \<Rightarrow> nat option \<times> engine_state" where
  "origin_insert v fl s =
     record_trade v ''Chainflip'' (base_asset fl) (side fl) (float_of (amount fl))
       (float_of (price fl)) (fees_earned_asset fl) (fees_asset fl) s"

definition adjusted_price_of :: "engine_env \<Rightarrow> fill \<Rightarrow> real" where
  "adjusted_price_of v fl =
     round_price v (float_of (price fl) *
       (1 + (if side fl = ''buy''
             then adjustment_bps_of v (hedging_symbol_of (base_asset fl)) ''sell'' (- 5)
             else adjustment_bps_of v (hedging_symbol_of (base_asset fl)) ''buy'' 16) / 10000))"

definition fees_in_usdc_of :: "fill \<Rightarrow> real \<Rightarrow> real" where
  "fees_in_usdc_of fl fee =
     (if fees_asset fl = Some (base_asset fl) then fee * float_of (price fl) else fee)"

definition pnl_of :: "engine_env \<Rightarrow> fill \<Rightarrow> real \<Rightarrow> real" where
  "pnl_of v fl fee =
     (if side fl = ''buy''
      then (adjusted_price_of v fl - float_of (price fl)) * float_of (amount fl)
      else (float_of (price fl) - adjusted_price_of v fl) * float_of (amount fl))
     + fees_in_usdc_of fl fee"

definition hedge_call :: "engine_env \<Rightarrow> fill \<Rightarrow> int \<Rightarrow> engine_state \<Rightarrow> nat option \<times> engine_state" where
  "hedge_call v fl d s =
     execute_perpetual_order v (hedging_symbol_of (base_asset fl))
       (if side fl = ''buy'' then ''sell'' else ''buy'')
       (round_size v (float_of (amount fl)) d) (adjusted_price_of v fl)
       (snd (origin_insert v fl s))"

definition pair_of :: "engine_env \<Rightarrow> fill \<Rightarrow> int \<Rightarrow> nat option \<Rightarrow> nat \<Rightarrow> real \<Rightarrow> pair_row" where
  "pair_of v fl d cid hid fee =
     \<lparr>tp_asset = base_asset fl, chainflip_id = cid, hyperliquid_id = hid,
      chainflip_amount = float_of (amount fl), chainflip_price = float_of (price fl),
      hyperliquid_amount = round_size v (float_of (amount fl)) d,
      hyperliquid_price = adjusted_price_of v fl,
      tp_fees_earned = fees_in_usdc_of fl fee, pnl = pnl_of v fl fee,
      pnl_percentage = pnl_of v fl fee / (float_of (price fl) * float_of (amount fl)) * 100\<rparr>"

section \<open>The maker (maker.py)\<close>

text \<open>Python's \<open>/\<close> raises on a zero divisor.\<close>

definition py_div :: "real \<Rightarrow> real \<Rightarrow> error + real" where
  "py_div x y = (if y = 0 then Inl ZeroDivisionError else Inr (x / y))"





text \<open>
  A limit-order fill as the venue sends it. \<open>sold\<close> and \<open>bought\<close> are the values
  of \<open>int(text, 16)\<close>, \<open>None\<close> when the text is not a hexadecimal literal.
\<close>

record limit_order =
  lp :: string
  lo_base_asset :: string
  lo_quote_asset :: string
  lo_side :: string
  sold :: "int option"
  bought :: "int option"

record order_data =
  lp_address :: string
  od_base_asset :: string
  od_quote_asset :: string
  od_side :: string
  asset_change :: real
  usdc_change :: real
  average_price :: real
  od_fees_asset :: real
  fees_usdc :: real

text \<open>Lines 148-183; the result \<open>None\<close> is the last line of the function.\<close>

definition handle_limit_order :: "limit_order \<Rightarrow> error + order_data option" where
  "handle_limit_order ord =
     (case sold ord of
        None \<Rightarrow> Inl ValueError
      | Some sd \<Rightarrow>
          (case bought ord of
             None \<Rightarrow> Inl ValueError
           | Some bt \<Rightarrow>
               if lo_base_asset ord \<in> {''ETH'', ''BTC'', ''DOT'', ''ARBITRUM_ETH''}
                  \<and> lo_quote_asset ord = ''USDC'' then
                 (let ac =
                        (if lo_base_asset ord = ''ETH'' \<or> lo_base_asset ord = ''ARBITRUM_ETH''
                         then real_of_int (if lo_side ord = ''sell'' then - sd else bt) / 10 ^ 18
                         else if lo_base_asset ord = ''BTC''
                         then real_of_int (if lo_side ord = ''sell'' then - sd else bt) / 10 ^ 8
                         else real_of_int (if lo_side ord = ''sell'' then - sd else bt) / 10 ^ 10);
                      uc = real_of_int (if lo_side ord = ''sell'' then bt else - sd) / 10 ^ 6
                  in case (if ac \<noteq> 0
                           then (case py_div uc ac of Inl err \<Rightarrow> Inl err | Inr q \<Rightarrow> Inr \<bar>q\<bar>)
                           else Inr 0) of
                       Inl err \<Rightarrow> Inl err
                     | Inr ap \<Rightarrow>
                         (let fu = \<bar>uc\<bar> * 0.0005 in
                          case (if ap \<noteq> 0 then py_div fu ap else Inr 0) of
                            Inl err \<Rightarrow> Inl err
                          | Inr fa \<Rightarrow>
                              Inr (Some \<lparr>lp_address = lp ord,
                                         od_base_asset = lo_base_asset ord,
                                         od_quote_asset = lo_quote_asset ord,
                                         od_side = lo_side ord,
                                         asset_change = ac, usdc_change = uc,
                                         average_price = ap, od_fees_asset = fa,
                                         fees_usdc = fu\<rparr>)))
               else Inr None))"

text \<open>
  The value of one entry of \<open>mids\<close>: text that \<open>float\<close> accepts, or not.
  \<open>float(mids.get(k, 0))\<close> is 0.0 for a missing key.
\<close>

datatype mid_text = Numeric real | NotNumeric

definition float_mid :: "(string \<rightharpoonup> mid_text) \<Rightarrow> string \<Rightarrow> error + real" where
  "float_mid mids k =
     (case mids k of
        None \<Rightarrow> Inr 0
      | Some (Numeric r) \<Rightarrow> Inr r
      | Some NotNumeric \<Rightarrow> Inl ValueError)"

text \<open>
  Lines 321-328: the update of \<open>hyperliquid_prices\<close> on an \<open>allMids\<close> message. The
  dictionary has its four keys from the start and loses none, so it is a function of
  the asset name. An exception leaves the assignments made before it.
\<close>

definition update_prices ::
  "(string \<rightharpoonup> mid_text) \<Rightarrow> (string \<Rightarrow> real) \<Rightarrow> error option \<times> (string \<Rightarrow> real)" where
  "update_prices mids hp =
     (case float_mid mids ''ETH'' of
        Inl err \<Rightarrow> (Some err, hp)
      | Inr eth \<Rightarrow>
          (case float_mid mids ''BTC'' of
             Inl err \<Rightarrow> (Some err, hp(''ETH'' := eth))
           | Inr btc \<Rightarrow>
               (case float_mid mids ''DOT'' of
                  Inl err \<Rightarrow> (Some err, hp(''ETH'' := eth, ''BTC'' := btc))
                | Inr dot \<Rightarrow>
                    (let hp3 = hp(''ETH'' := eth, ''BTC'' := btc, ''DOT'' := dot)
                     in (None, hp3(''ARBITRUM_ETH'' := hp3 ''ETH''))))))"

text \<open>
  The configuration \<open>run_market_making_bot\<close> reads, keyed by the asset name: the
  factors and the threshold of \<open>config['trading']\<close> and the eight amounts.
\<close>

record maker_config =
  buy_factor :: "string \<Rightarrow> real"
  sell_factor :: "string \<Rightarrow> real"
  price_change_threshold :: real
  sell_amount :: "string \<Rightarrow> real"
  buy_amount :: "string \<Rightarrow> real"

text \<open>A call of \<open>place_limit_order\<close> appended to \<open>tasks\<close>.\<close>

record task =
  t_order_type :: string
  t_price :: real
  t_amount :: real
  t_asset :: string
  t_order_id :: nat

text \<open>
  Lines 396-399: the relative price change, \<open>float('inf')\<close> (here \<open>None\<close>) when no
  order was placed yet; and its comparison with the threshold.
\<close>

definition price_change :: "real \<Rightarrow> real \<Rightarrow> real option" where
  "price_change mid last_price =
     (if last_price \<noteq> 0 then Some (\<bar>mid - last_price\<bar> / last_price) else None)"

definition exceeds :: "real option \<Rightarrow> real \<Rightarrow> bool" where
  "exceeds change threshold = (case change of None \<Rightarrow> True | Some x \<Rightarrow> x > threshold)"

text \<open>
  One of the four blocks of lines 403-433, for the asset \<open>a\<close> with the order ids
  \<open>i\<close> (sell) and \<open>i + 1\<close> (buy): it appends to the list \<open>tasks\<close> that the blocks
  share, then tests that list.
\<close>

definition requote ::
  "maker_config \<Rightarrow> string \<Rightarrow> nat \<Rightarrow> real \<Rightarrow> real option
     \<Rightarrow> task list \<times> (string \<Rightarrow> real) \<Rightarrow> task list \<times> (string \<Rightarrow> real)" where
  "requote c a i mid change st =
     (let tasks = fst st;
          last_order_prices = snd st;
          tasks1 =
            (if (exceeds change (price_change_threshold c) \<or> last_order_prices a = 0)
                \<and> sell_amount c a > 0
             then tasks @ [\<lparr>t_order_type = ''sell'', t_price = mid * sell_factor c a,
                             t_amount = sell_amount c a, t_asset = a, t_order_id = i\<rparr>]
             else tasks);
          tasks2 =
            (if (exceeds change (price_change_threshold c) \<or> last_order_prices a = 0)
                \<and> buy_amount c a > 0
             then tasks1 @ [\<lparr>t_order_type = ''buy'', t_price = mid * buy_factor c a,
                             t_amount = buy_amount c a, t_asset = a, t_order_id = Suc i\<rparr>]
             else tasks1)
      in if tasks2 \<noteq> [] then (tasks2, last_order_prices(a := mid))
         else (tasks2, last_order_prices))"

text \<open>
  One iteration of the loop of \<open>run_market_making_bot\<close> (lines 374-436): the tasks
  it gathers and the new \<open>last_order_prices\<close>. The four changes are computed before
  the first block.
\<close>

definition market_making_iteration ::
  "maker_config \<Rightarrow> (string \<Rightarrow> real) \<Rightarrow> (string \<Rightarrow> real) \<Rightarrow> task list \<times> (string \<Rightarrow> real)" where
  "market_making_iteration c hyperliquid_prices last_order_prices =
     (let eth_mid_price = hyperliquid_prices ''ETH'';
          btc_mid_price = hyperliquid_prices ''BTC'';
          dot_mid_price = hyperliquid_prices ''DOT'';
          arbitrum_eth_mid_price = hyperliquid_prices ''ARBITRUM_ETH''
      in if eth_mid_price = 0 \<or> btc_mid_price = 0 \<or> dot_mid_price = 0
            \<or> arbitrum_eth_mid_price = 0
         then ([], last_order_prices)
         else
           (let eth_price_change = price_change eth_mid_price (last_order_prices ''ETH'');
                btc_price_change = price_change btc_mid_price (last_order_prices ''BTC'');
                dot_price_change = price_change dot_mid_price (last_order_prices ''DOT'');
                arbitrum_eth_price_change =
                  price_change arbitrum_eth_mid_price (last_order_prices ''ARBITRUM_ETH'')
            in requote c ''ARBITRUM_ETH'' 7 arbitrum_eth_mid_price arbitrum_eth_price_change
                 (requote c ''DOT'' 5 dot_mid_price dot_price_change
                    (requote c ''BTC'' 3 btc_mid_price btc_price_change
                       (requote c ''ETH'' 1 eth_mid_price eth_price_change
                          ([], last_order_prices))))))"

section \<open>Example inputs\<close>

text \<open>Concrete inputs on which the theorems below are instantiated.\<close>

definition example_env :: env where
  "example_env = \<lparr>script_start_time = 50, hedge_returns = (\<lambda>tr f. True)\<rparr>"

definition example_fill :: "int \<Rightarrow> real \<Rightarrow> fill" where
  "example_fill t a =
     \<lparr>timestamp = JInt t, base_asset = ''ETH'', side = ''buy'', amount = JFloat a,
      price = JFloat 2000, fees_earned_asset = Some 0, fees_asset = Some ''ETH''\<rparr>"

text \<open>
  An engine whose venue gives the same answer to every request, whose store accepts
  every insert, and whose example values need no rounding.
\<close>

definition example_engine :: "venue_result \<Rightarrow> engine_env" where
  "example_engine answer =
     \<lparr>sz_decimals = [''ETH'' \<mapsto> 4, ''BTC'' \<mapsto> 5, ''DOT'' \<mapsto> 1],
      price_adjustment_bps = [''ETH'' \<mapsto> [''sell'' \<mapsto> - 50, ''buy'' \<mapsto> 16]],
      py_round = (\<lambda>x n. x), format_5g = (\<lambda>x. x),
      exchange_order = (\<lambda>sent req. answer), db_accepts = (\<lambda>n. True)\<rparr>"

definition empty_engine_state :: engine_state where
  "empty_engine_state =
     \<lparr>trades = [], trade_pairs = [], orders = [], leverage_updates = [], db_calls = 0\<rparr>"

definition example_buy :: "string \<Rightarrow> fill" where
  "example_buy a =
     \<lparr>timestamp = JInt 100, base_asset = a, side = ''buy'', amount = JFloat 1,
      price = JFloat 100, fees_earned_asset = Some 0, fees_asset = Some a\<rparr>"

definition example_mids :: "string \<rightharpoonup> mid_text" where
  "example_mids = [''ETH'' \<mapsto> Numeric 2000, ''BTC'' \<mapsto> Numeric 60000, ''DOT'' \<mapsto> Numeric 5]"

definition example_order :: limit_order where
  "example_order =
     \<lparr>lp = ''cFLP'', lo_base_asset = ''ETH'', lo_quote_asset = ''USDC'', lo_side = ''sell'',
      sold = Some (10 ^ 18), bought = Some (2000 * 10 ^ 6)\<rparr>"

text \<open>
  A maker whose prices of \<open>ETH\<close> and \<open>ARBITRUM_ETH\<close> moved by ten percent since
  the last orders, while \<open>BTC\<close> moved by 0.002 percent and \<open>DOT\<close> not at all; the
  threshold is one percent.
\<close>

definition example_config :: maker_config where
  "example_config =
     \<lparr>buy_factor = (\<lambda>a. 0.999), sell_factor = (\<lambda>a. 1.001),
      price_change_threshold = 0.01, sell_amount = (\<lambda>a. 1), buy_amount = (\<lambda>a. 1)\<rparr>"

definition example_prices :: "string \<Rightarrow> real" where
  "example_prices =
     (\<lambda>a. 0)(''ETH'' := 1100, ''BTC'' := 50001, ''DOT'' := 5, ''ARBITRUM_ETH'' := 1100)"

definition example_last_order_prices :: "string \<Rightarrow> real" where
  "example_last_order_prices =
     (\<lambda>a. 0)(''ETH'' := 1000, ''BTC'' := 50000, ''DOT'' := 5, ''ARBITRUM_ETH'' := 1000)"

section \<open>Properties of the order-fill scan\<close>

lemma delivered_append: "delivered (xs @ ys) = delivered xs @ delivered ys"
  by (induction xs rule: delivered.induct) simp_all

lemma trade_id_eq_buffered:
  "trade_id x = buffered_trade_id y \<Longrightarrow> fill_time y = fill_time x"
  by (cases "timestamp y") (auto simp add: trade_id_def buffered_trade_id_def fill_time_def)

text \<open>
  Claim C8. A relay file whose three entries, all newer than the cutoff and not yet
  processed, carry the timestamps 101, 100, 100 in file order is delivered to
  \<open>process_order_fill\<close> as 100, 100, 101: the two entries of timestamp 100 first,
  in their file order, then the entry of timestamp 101.
\<close>

theorem C8_reverse_file_order:
  assumes ret: "\<forall>tr g. hedge_returns e tr g"
    and ta: "fill_time a = 101" and tb: "fill_time b = 100" and tc: "fill_time c = 100"
    and cut: "max (last_processed_time s) (script_start_time e) < 100"
    and un: "\<forall>x\<in>{a, b, c}. trade_id x \<notin> processed_trades s
                \<and> buffered_trade_id x \<notin> processed_trades s"
    and bc: "buffered_trade_id b \<noteq> buffered_trade_id c"
  shows "delivered (trace (order_fill_scan e (Some [Rec a, Rec b, Rec c]) s))
           = delivered (trace s) @ [b, c, a]"
proof -
  have ab: "trade_id a \<noteq> buffered_trade_id b" "trade_id a \<noteq> buffered_trade_id c"
    using trade_id_eq_buffered[of a b] trade_id_eq_buffered[of a c] ta tb tc by auto
  have ba: "buffered_trade_id a \<noteq> buffered_trade_id b"
    "buffered_trade_id a \<noteq> buffered_trade_id c"
    using ta tb tc by (auto simp add: buffered_trade_id_def fill_time_def)
  show ?thesis
    using ret ta tb tc cut un bc ab ba
    by (simp add: order_fill_scan_def save_checkpoint_def delivered_append)
qed

theorem C8_reverse_file_order_witness:
  "delivered (trace (order_fill_scan example_env
      (Some [Rec (example_fill 101 1), Rec (example_fill 100 2), Rec (example_fill 100 3)])
      (initial_state None)))
   = [example_fill 100 2, example_fill 100 3, example_fill 101 1]"
  using C8_reverse_file_order[of example_env "example_fill 101 1" "example_fill 100 2"
      "example_fill 100 3" "initial_state None"]
  by (simp add: example_env_def example_fill_def initial_state_def fill_time_def
      trade_id_def buffered_trade_id_def)

lemma pb_frame:
  "last_processed_time (state_after (process_buffered e bs s)) = last_processed_time s
   \<and> checkpoint_file (state_after (process_buffered e bs s)) = checkpoint_file s
   \<and> trades_buffer (state_after (process_buffered e bs s)) = trades_buffer s
   \<and> current_timestamp (state_after (process_buffered e bs s)) = current_timestamp s"
  by (induction bs arbitrary: s) (simp_all add: state_after_def)

lemma pb_frame_Inr:
  assumes "process_buffered e bs s = Inr s'"
  shows "last_processed_time s' = last_processed_time s" "checkpoint_file s' = checkpoint_file s"
    "trades_buffer s' = trades_buffer s" "current_timestamp s' = current_timestamp s"
  using pb_frame[of e bs s] assms by (simp_all add: state_after_def)







lemma sl_frame:
  "last_processed_time (state_after (scan_lines e ls s)) = last_processed_time s
   \<and> checkpoint_file (state_after (scan_lines e ls s)) = checkpoint_file s"
proof (induction e ls s rule: scan_lines.induct)
  case (1 e s)
  then show ?case by (simp add: state_after_def)
next
  case (2 e ls s)
  then show ?case by (simp add: state_after_def)
next
  case (3 e f ls s)
  show ?case
  proof (cases "fill_time f > max (last_processed_time s) (script_start_time e)
         \<and> trade_id f \<notin> processed_trades s")
    case elig: True
    show ?thesis
    proof (cases "current_timestamp s = None \<or> current_timestamp s = Some (fill_time f)")
      case True
      with "3.IH"(1)[OF elig True] elig show ?thesis by simp
    next
      case False
      show ?thesis
      proof (cases "process_buffered e (rev (trades_buffer s)) s")
        case (Inl a)
        then show ?thesis using pb_frame[of e "rev (trades_buffer s)" s] elig False
          by (auto simp add: state_after_def)
      next
        case (Inr s1)
        then show ?thesis using "3.IH"(2)[OF elig False Inr] elig False pb_frame_Inr[OF Inr]
          by auto
      qed
    qed
  next
    case False
    then show ?thesis using "3.IH"(3) by (auto simp add: state_after_def)
  qed
qed










text \<open>The scan in terms of the states its two loops leave.\<close>

lemma scan_unfold:
  "order_fill_scan e (Some lines) s =
     (case scan_lines e (rev lines)
             (s\<lparr>new_fills_count := 0, trades_buffer := [], current_timestamp := None\<rparr>) of
        Inl err \<Rightarrow> raised err
      | Inr s1 \<Rightarrow>
          (case process_buffered e (rev (trades_buffer s1)) s1 of
             Inl err \<Rightarrow> raised err
           | Inr s2 \<Rightarrow> save_checkpoint s2))"
  by (simp add: order_fill_scan_def)

















lemma saves_append: "saves (xs @ ys) = saves xs @ saves ys"
  by (induction xs rule: saves.induct) simp_all

lemma saves_fill_events: "list_all is_fill_event evs \<Longrightarrow> saves evs = []"
  by (induction evs rule: saves.induct) simp_all

lemma fill_events_no_saved: "list_all is_fill_event evs \<Longrightarrow> Saved t \<notin> set evs"
  by (induction evs) auto

lemma pb_events:
  "\<exists>evs. trace (state_after (process_buffered e bs s)) = trace s @ evs
     \<and> list_all is_fill_event evs
     \<and> (\<forall>f. Buffered f \<notin> set evs)
     \<and> new_fills_count s \<le> new_fills_count (state_after (process_buffered e bs s))
     \<and> (new_fills_count s < new_fills_count (state_after (process_buffered e bs s))
          \<longrightarrow> bs \<noteq> [])
     \<and> (\<forall>s'. process_buffered e bs s = Inr s' \<longrightarrow>
           (\<forall>b\<in>set bs. Processed b \<in> set evs \<or> Skipped b \<in> set evs))"
proof (induction bs arbitrary: s)
  case Nil
  then show ?case by (simp add: state_after_def)
next
  case (Cons b bs)
  show ?case
  proof (cases "buffered_trade_id b \<notin> processed_trades s")
    case True
    show ?thesis
    proof (cases "hedge_returns e (trace s) b")
      case r: True
      let ?s1 = "s\<lparr>processed_trades := insert (buffered_trade_id b) (processed_trades s),
                new_fills_count := Suc (new_fills_count s),
                trace := trace s @ [Processed b]\<rparr>"
      have eq: "process_buffered e (b # bs) s = process_buffered e bs ?s1"
        using True r by simp
      from Cons.IH[of ?s1] obtain evs where evs:
        "trace (state_after (process_buffered e bs ?s1)) = trace ?s1 @ evs"
        "list_all is_fill_event evs" "\<forall>f. Buffered f \<notin> set evs"
        "new_fills_count ?s1 \<le> new_fills_count (state_after (process_buffered e bs ?s1))"
        "\<forall>s'. process_buffered e bs ?s1 = Inr s' \<longrightarrow>
           (\<forall>b\<in>set bs. Processed b \<in> set evs \<or> Skipped b \<in> set evs)"
        by blast
      show ?thesis
        apply (rule exI[of _ "Processed b # evs"])
        using evs eq by auto
    next
      case False
      then show ?thesis using True by (simp add: state_after_def)
    qed
  next
    case False
    let ?s1 = "s\<lparr>trace := trace s @ [Skipped b]\<rparr>"
    have eq: "process_buffered e (b # bs) s = process_buffered e bs ?s1"
      using False by simp
    from Cons.IH[of ?s1] obtain evs where evs:
      "trace (state_after (process_buffered e bs ?s1)) = trace ?s1 @ evs"
      "list_all is_fill_event evs" "\<forall>f. Buffered f \<notin> set evs"
      "new_fills_count ?s1 \<le> new_fills_count (state_after (process_buffered e bs ?s1))"
      "new_fills_count ?s1 < new_fills_count (state_after (process_buffered e bs ?s1))
          \<longrightarrow> bs \<noteq> []"
      "\<forall>s'. process_buffered e bs ?s1 = Inr s' \<longrightarrow>
         (\<forall>b\<in>set bs. Processed b \<in> set evs \<or> Skipped b \<in> set evs)"
      by blast
    show ?thesis
      apply (rule exI[of _ "Skipped b # evs"])
      using evs eq by auto
  qed
qed


lemma sl_events:
  assumes "trace s = tr0 @ evs" "scan_inv (last_processed_time s) evs s"
  shows "\<exists>evs'. trace (state_after (scan_lines e ls s)) = tr0 @ evs'
     \<and> list_all is_fill_event evs'
     \<and> (\<forall>s'. scan_lines e ls s = Inr s' \<longrightarrow> scan_inv (last_processed_time s) evs' s')"
  using assms
proof (induction e ls s arbitrary: evs rule: scan_lines.induct)
  case (1 e s)
  then show ?case by (auto simp add: state_after_def scan_inv_def)
next
  case (2 e ls s)
  then show ?case by (auto simp add: state_after_def scan_inv_def)
next
  case (3 e f ls s)
  note tr = "3.prems"(1) and inv = "3.prems"(2)
  have fe: "list_all is_fill_event evs" using inv by (simp add: scan_inv_def)
  show ?case
  proof (cases "fill_time f > max (last_processed_time s) (script_start_time e)
         \<and> trade_id f \<notin> processed_trades s")
    case elig: True
    show ?thesis
    proof (cases "current_timestamp s = None \<or> current_timestamp s = Some (fill_time f)")
      case True
      let ?s1 = "s\<lparr>current_timestamp := Some (fill_time f),
                trades_buffer := trades_buffer s @ [f],
                trace := trace s @ [Buffered f]\<rparr>"
      have eq: "scan_lines e (Rec f # ls) s = scan_lines e ls ?s1" using elig True by simp
      have t1: "trace ?s1 = tr0 @ (evs @ [Buffered f])" using tr by simp
      have i1: "scan_inv (last_processed_time ?s1) (evs @ [Buffered f]) ?s1"
        using inv elig by (auto simp add: scan_inv_def)
      from "3.IH"(1)[OF elig True t1 i1] show ?thesis using eq by simp
    next
      case False
      from pb_events[of e "rev (trades_buffer s)" s] obtain evs1 where evs1:
        "trace (state_after (process_buffered e (rev (trades_buffer s)) s)) = trace s @ evs1"
        "list_all is_fill_event evs1" "\<forall>g. Buffered g \<notin> set evs1"
        "\<forall>s'. process_buffered e (rev (trades_buffer s)) s = Inr s' \<longrightarrow>
           (\<forall>b\<in>set (rev (trades_buffer s)). Processed b \<in> set evs1 \<or> Skipped b \<in> set evs1)"
        by blast
      show ?thesis
      proof (cases "process_buffered e (rev (trades_buffer s)) s")
        case (Inl a)
        then have "scan_lines e (Rec f # ls) s = Inl a" using elig False by auto
        then show ?thesis
          using evs1(1,2) Inl tr fe
          by (auto simp add: state_after_def intro!: exI[of _ "evs @ evs1"])
      next
        case (Inr s1)
        let ?s2 = "s1\<lparr>trades_buffer := [f], current_timestamp := Some (fill_time f),
                trace := trace s1 @ [Buffered f]\<rparr>"
        have eq: "scan_lines e (Rec f # ls) s = scan_lines e ls ?s2"
          using elig False Inr by auto
        have ts1: "trace s1 = trace s @ evs1" using evs1(1) Inr by (simp add: state_after_def)
        have l1: "last_processed_time s1 = last_processed_time s"
          using pb_frame_Inr(1)[OF Inr] .
        have t2: "trace ?s2 = tr0 @ (evs @ evs1 @ [Buffered f])" using ts1 tr by simp
        have handled: "\<forall>b\<in>set (trades_buffer s). Processed b \<in> set evs1 \<or> Skipped b \<in> set evs1"
          using evs1(4) Inr by simp
        have i2: "scan_inv (last_processed_time ?s2) (evs @ evs1 @ [Buffered f]) ?s2"
          using inv elig handled evs1(2,3) l1
          by (auto simp add: scan_inv_def)
        from "3.IH"(2)[OF elig False Inr t2 i2] show ?thesis using eq l1 by simp
      qed
    qed
  next
    case False
    show ?thesis
    proof (cases "fill_time f \<le> script_start_time e")
      case True
      then have "scan_lines e (Rec f # ls) s = Inr s" using False by auto
      then show ?thesis using tr inv fe
        by (auto simp add: state_after_def intro!: exI[of _ evs])
    next
      case notbreak: False
      then have eq: "scan_lines e (Rec f # ls) s = scan_lines e ls s" using False by auto
      from "3.IH"(3)[OF False notbreak tr inv] show ?thesis using eq by simp
    qed
  qed
qed


lemma scan_events:
  "\<exists>evs. trace (order_fill_scan e fl s) = trace s @ evs
     \<and> ((saves evs = []
          \<and> last_processed_time (order_fill_scan e fl s) = last_processed_time s
          \<and> checkpoint_file (order_fill_scan e fl s) = checkpoint_file s)
        \<or> (\<exists>evs0 f. evs = evs0 @ [Saved (fill_time f)]
              \<and> list_all is_fill_event evs0
              \<and> Buffered f \<in> set evs0
              \<and> last_processed_time s < fill_time f
              \<and> (\<forall>g. Buffered g \<in> set evs0 \<longrightarrow>
                    Processed g \<in> set evs0 \<or> Skipped g \<in> set evs0)
              \<and> last_processed_time (order_fill_scan e fl s) = fill_time f
              \<and> checkpoint_file (order_fill_scan e fl s) = Some (fill_time f)))"
proof (cases fl)
  case None
  then show ?thesis by (simp add: order_fill_scan_def)
next
  case (Some lines)
  let ?s0 = "s\<lparr>new_fills_count := 0, trades_buffer := [], current_timestamp := None\<rparr>"
  have "trace ?s0 = trace s @ []" by simp
  moreover have "scan_inv (last_processed_time ?s0) [] ?s0" by (simp add: scan_inv_def)
  ultimately obtain evs1 where evs1:
    "trace (state_after (scan_lines e (rev lines) ?s0)) = trace s @ evs1"
    "list_all is_fill_event evs1"
    "\<forall>s'. scan_lines e (rev lines) ?s0 = Inr s' \<longrightarrow> scan_inv (last_processed_time ?s0) evs1 s'"
    using sl_events[of ?s0 "trace s" "[]" e "rev lines"] by blast
  note fr1 = sl_frame[of e "rev lines" ?s0]
  show ?thesis
  proof (cases "scan_lines e (rev lines) ?s0")
    case (Inl a)
    then have "order_fill_scan e fl s = raised a" using Some by (simp add: scan_unfold)
    then show ?thesis
      using evs1(1,2) fr1 Inl
      by (auto simp add: state_after_def raised_def saves_append saves_fill_events
          intro!: exI[of _ "evs1 @ [Raised (fst a)]"])
  next
    case (Inr s1)
    have t1: "trace s1 = trace s @ evs1" using evs1(1) Inr by (simp add: state_after_def)
    have i1: "scan_inv (last_processed_time s) evs1 s1" using evs1(3) Inr by simp
    have f1: "last_processed_time s1 = last_processed_time s" "checkpoint_file s1 = checkpoint_file s"
      using fr1 Inr by (simp_all add: state_after_def)
    from pb_events[of e "rev (trades_buffer s1)" s1] obtain evs2 where evs2:
      "trace (state_after (process_buffered e (rev (trades_buffer s1)) s1)) = trace s1 @ evs2"
      "list_all is_fill_event evs2" "\<forall>g. Buffered g \<notin> set evs2"
      "new_fills_count s1
         \<le> new_fills_count (state_after (process_buffered e (rev (trades_buffer s1)) s1))"
      "new_fills_count s1
         < new_fills_count (state_after (process_buffered e (rev (trades_buffer s1)) s1))
       \<longrightarrow> rev (trades_buffer s1) \<noteq> []"
      "\<forall>s'. process_buffered e (rev (trades_buffer s1)) s1 = Inr s' \<longrightarrow>
         (\<forall>b\<in>set (rev (trades_buffer s1)). Processed b \<in> set evs2 \<or> Skipped b \<in> set evs2)"
      by blast
    note fr2 = pb_frame[of e "rev (trades_buffer s1)" s1]
    show ?thesis
    proof (cases "process_buffered e (rev (trades_buffer s1)) s1")
      case (Inl a)
      then have "order_fill_scan e fl s = raised a" using Some Inr by (simp add: scan_unfold)
      then show ?thesis
        using evs1(2) evs2(1,2) t1 f1 fr2 Inl
        by (auto simp add: state_after_def raised_def saves_append saves_fill_events
            intro!: exI[of _ "evs1 @ evs2 @ [Raised (fst a)]"])
    next
      case s2: (Inr s2)
      have res: "order_fill_scan e fl s = save_checkpoint s2"
        using Some Inr s2 by (simp add: scan_unfold)
      have t2: "trace s2 = trace s @ (evs1 @ evs2)"
        using evs2(1) s2 t1 by (simp add: state_after_def)
      have f2: "last_processed_time s2 = last_processed_time s"
        "checkpoint_file s2 = checkpoint_file s" "current_timestamp s2 = current_timestamp s1"
        using fr2 s2 f1 by (simp_all add: state_after_def)
      have fe: "list_all is_fill_event (evs1 @ evs2)" using evs1(2) evs2(2) by simp
      show ?thesis
      proof (cases "0 < new_fills_count s2")
        case False
        then have "save_checkpoint s2 = s2" by (simp add: save_checkpoint_def)
        then show ?thesis
          using res t2 f2 fe
          by (auto simp add: saves_fill_events intro!: exI[of _ "evs1 @ evs2"])
      next
        case True
        then have "0 < new_fills_count s1 \<or> trades_buffer s1 \<noteq> []"
          using evs2(5) s2 by (auto simp add: state_after_def)
        then obtain f where f: "Buffered f \<in> set evs1"
          "current_timestamp s1 = Some (fill_time f)" "last_processed_time s < fill_time f"
          using i1 by (auto simp add: scan_inv_def)
        have sv: "save_checkpoint s2
            = s2\<lparr>last_processed_time := fill_time f, checkpoint_file := Some (fill_time f),
                 trace := trace s2 @ [Saved (fill_time f)]\<rparr>"
          using True f(2) f2(3) by (simp add: save_checkpoint_def)
        have handled: "\<forall>g. Buffered g \<in> set (evs1 @ evs2) \<longrightarrow>
            Processed g \<in> set (evs1 @ evs2) \<or> Skipped g \<in> set (evs1 @ evs2)"
          using i1 evs2(3,6) s2 by (auto simp add: scan_inv_def)
        show ?thesis
          apply (rule exI[of _ "(evs1 @ evs2) @ [Saved (fill_time f)]"])
          apply (rule conjI)
          subgoal using res sv t2 by simp
          apply (rule disjI2)
          apply (rule exI[of _ "evs1 @ evs2"])
          apply (rule exI[of _ f])
          using res sv fe f handled by simp
      qed
    qed
  qed
qed


lemma sorted_wrt_less_snoc:
  fixes t :: real
  assumes "sorted_wrt (<) xs" "xs \<noteq> []" "last xs < t"
  shows "sorted_wrt (<) (xs @ [t])"
proof -
  have "\<forall>x\<in>set xs. x \<le> last xs"
    using assms(1,2)
  proof (induction xs)
    case Nil
    then show ?case by simp
  next
    case (Cons a xs)
    then show ?case by (cases xs) (auto simp add: less_imp_le)
  qed
  then show ?thesis using assms by (auto simp add: sorted_wrt_append)
qed

lemma scan_checkpoint_inv:
  assumes "checkpoint_inv l0 s"
  shows "checkpoint_inv l0 (order_fill_scan e fl s)"
proof -
  from scan_events[of e fl s] obtain evs where evs:
    "trace (order_fill_scan e fl s) = trace s @ evs"
    "(saves evs = []
          \<and> last_processed_time (order_fill_scan e fl s) = last_processed_time s)
        \<or> (\<exists>evs0 f. evs = evs0 @ [Saved (fill_time f)]
              \<and> list_all is_fill_event evs0
              \<and> last_processed_time s < fill_time f
              \<and> last_processed_time (order_fill_scan e fl s) = fill_time f)"
    by blast
  from evs(2) show ?thesis
  proof
    assume "saves evs = []
          \<and> last_processed_time (order_fill_scan e fl s) = last_processed_time s"
    then show ?thesis using assms evs(1) by (simp add: checkpoint_inv_def saves_append)
  next
    assume "\<exists>evs0 f. evs = evs0 @ [Saved (fill_time f)]
              \<and> list_all is_fill_event evs0
              \<and> last_processed_time s < fill_time f
              \<and> last_processed_time (order_fill_scan e fl s) = fill_time f"
    then obtain evs0 f where f: "evs = evs0 @ [Saved (fill_time f)]"
      "list_all is_fill_event evs0" "last_processed_time s < fill_time f"
      "last_processed_time (order_fill_scan e fl s) = fill_time f"
      by blast
    have sv: "saves (trace (order_fill_scan e fl s)) = saves (trace s) @ [fill_time f]"
      using evs(1) f(1,2) by (simp add: saves_append saves_fill_events)
    have "sorted_wrt (<) ((l0 # saves (trace s)) @ [fill_time f])"
      using sorted_wrt_less_snoc[of "l0 # saves (trace s)" "fill_time f"] assms f(3)
      by (simp add: checkpoint_inv_def)
    then show ?thesis using sv f(4) by (simp add: checkpoint_inv_def)
  qed
qed

lemma run_checkpoint_inv:
  assumes "checkpoint_inv l0 s"
  shows "checkpoint_inv l0 (run e files s)"
  using assms by (induction files arbitrary: s) (simp_all add: scan_checkpoint_inv)

text \<open>
  Claim C3. In a run that starts from the loaded checkpoint, the values written to
  the checkpoint file are strictly increasing and each is greater than the loaded
  value. In every scan, a write is the last event of the scan: it is greater than
  \<open>last_processed_time\<close> at the start of the scan, it is the timestamp of a record
  buffered in this scan, and every record buffered in this scan was handed to
  \<open>process_order_fill\<close> or skipped as a duplicate before it; no exception happened.
\<close>

theorem C3_checkpoint_monotonic:
  "sorted_wrt (<)
     (last_processed_time (initial_state c) # saves (trace (run e files (initial_state c))))
   \<and> (\<exists>evs. trace (order_fill_scan e fl s) = trace s @ evs
        \<and> (\<forall>t. Saved t \<in> set evs \<longrightarrow>
              last_processed_time s < t
              \<and> (\<exists>evs0 f. evs = evs0 @ [Saved t]
                    \<and> list_all is_fill_event evs0
                    \<and> Buffered f \<in> set evs0 \<and> fill_time f = t
                    \<and> (\<forall>g. Buffered g \<in> set evs0 \<longrightarrow>
                          Processed g \<in> set evs0 \<or> Skipped g \<in> set evs0))))"
proof
  have "checkpoint_inv (last_processed_time (initial_state c)) (initial_state c)"
    by (simp add: checkpoint_inv_def initial_state_def)
  then show "sorted_wrt (<)
     (last_processed_time (initial_state c) # saves (trace (run e files (initial_state c))))"
    using run_checkpoint_inv[of "last_processed_time (initial_state c)" "initial_state c" e files]
    by (simp add: checkpoint_inv_def)
next
  from scan_events[of e fl s] obtain evs where evs:
    "trace (order_fill_scan e fl s) = trace s @ evs"
    "saves evs = []
        \<or> (\<exists>evs0 f. evs = evs0 @ [Saved (fill_time f)]
              \<and> list_all is_fill_event evs0
              \<and> Buffered f \<in> set evs0
              \<and> last_processed_time s < fill_time f
              \<and> (\<forall>g. Buffered g \<in> set evs0 \<longrightarrow>
                    Processed g \<in> set evs0 \<or> Skipped g \<in> set evs0))"
    by blast
  have ns: "saves xs = [] \<Longrightarrow> Saved t \<notin> set xs" for xs t
    by (induction xs rule: saves.induct) auto
  have "\<forall>t. Saved t \<in> set evs \<longrightarrow>
              last_processed_time s < t
              \<and> (\<exists>evs0 f. evs = evs0 @ [Saved t]
                    \<and> list_all is_fill_event evs0
                    \<and> Buffered f \<in> set evs0 \<and> fill_time f = t
                    \<and> (\<forall>g. Buffered g \<in> set evs0 \<longrightarrow>
                          Processed g \<in> set evs0 \<or> Skipped g \<in> set evs0))"
    using evs(2)
  proof
    assume "saves evs = []"
    then show ?thesis using ns by blast
  next
    assume "\<exists>evs0 f. evs = evs0 @ [Saved (fill_time f)]
              \<and> list_all is_fill_event evs0
              \<and> Buffered f \<in> set evs0
              \<and> last_processed_time s < fill_time f
              \<and> (\<forall>g. Buffered g \<in> set evs0 \<longrightarrow>
                    Processed g \<in> set evs0 \<or> Skipped g \<in> set evs0)"
    then obtain evs0 f where f: "evs = evs0 @ [Saved (fill_time f)]"
      "list_all is_fill_event evs0" "Buffered f \<in> set evs0"
      "last_processed_time s < fill_time f"
      "\<forall>g. Buffered g \<in> set evs0 \<longrightarrow> Processed g \<in> set evs0 \<or> Skipped g \<in> set evs0"
      by blast
    show ?thesis
    proof (intro allI impI)
      fix t assume "Saved t \<in> set evs"
      then have "t = fill_time f" using f(1) fill_events_no_saved[OF f(2)] by auto
      then show "last_processed_time s < t
              \<and> (\<exists>evs0 f. evs = evs0 @ [Saved t]
                    \<and> list_all is_fill_event evs0
                    \<and> Buffered f \<in> set evs0 \<and> fill_time f = t
                    \<and> (\<forall>g. Buffered g \<in> set evs0 \<longrightarrow>
                          Processed g \<in> set evs0 \<or> Skipped g \<in> set evs0))"
        using f by blast
    qed
  qed
  then show "\<exists>evs. trace (order_fill_scan e fl s) = trace s @ evs
        \<and> (\<forall>t. Saved t \<in> set evs \<longrightarrow>
              last_processed_time s < t
              \<and> (\<exists>evs0 f. evs = evs0 @ [Saved t]
                    \<and> list_all is_fill_event evs0
                    \<and> Buffered f \<in> set evs0 \<and> fill_time f = t
                    \<and> (\<forall>g. Buffered g \<in> set evs0 \<longrightarrow>
                          Processed g \<in> set evs0 \<or> Skipped g \<in> set evs0)))"
    using evs(1) by blast
qed

theorem C3_checkpoint_monotonic_witness:
  "saves (trace (run example_env
      [Some [Rec (example_fill 100 1), Rec (example_fill 101 2)],
       Some [Rec (example_fill 100 1), Rec (example_fill 101 2), Rec (example_fill 102 3)]]
      (initial_state (Some 60)))) = [100, 101]
   \<and> trace (order_fill_scan example_env
        (Some [Rec (example_fill 100 1), Rec (example_fill 101 2)]) (initial_state (Some 60)))
     = [Buffered (example_fill 101 2), Processed (example_fill 101 2),
        Buffered (example_fill 100 1), Processed (example_fill 100 1), Saved 100]"
  using C3_checkpoint_monotonic[of "Some 60" example_env
      "[Some [Rec (example_fill 100 1), Rec (example_fill 101 2)],
        Some [Rec (example_fill 100 1), Rec (example_fill 101 2), Rec (example_fill 102 3)]]"
      "Some [Rec (example_fill 100 1), Rec (example_fill 101 2)]" "initial_state (Some 60)"]
  by (simp add: example_env_def example_fill_def initial_state_def fill_time_def
      trade_id_def buffered_trade_id_def order_fill_scan_def save_checkpoint_def)










section \<open>Properties of the hedge engine\<close>

lemma first_accepted_cases:
  "first_accepted sts = None \<or> (\<exists>oid. first_accepted sts = Some (Resting oid))
     \<or> (\<exists>a b. first_accepted sts = Some (Filled a b))"
  by (induction sts rule: first_accepted.induct) auto

lemma exec_pairs:
  "trade_pairs (snd (execute_perpetual_order v sb sd amt px s)) = trade_pairs s"
  by (auto simp add: execute_perpetual_order_def record_trade_def Let_def
      split: option.splits venue_result.splits order_status.splits)

lemma exec_leverage:
  "leverage_updates (snd (execute_perpetual_order v sb sd amt px s))
     = leverage_updates s @ [(sb, 1)]"
  by (auto simp add: execute_perpetual_order_def record_trade_def Let_def
      split: option.splits venue_result.splits order_status.splits)

lemma exec_orders:
  "orders (snd (execute_perpetual_order v sb sd amt px s))
     = (case sz_decimals v sb of
          None \<Rightarrow> orders s
        | Some d \<Rightarrow>
            if round_size v amt d = 0 then orders s
            else orders s @ [\<lparr>coin = sb, is_buy = (sd = ''buy''), sz = round_size v amt d,
                               limit_px = round_price v px\<rparr>])"
  by (auto simp add: execute_perpetual_order_def record_trade_def Let_def
      split: option.splits venue_result.splits order_status.splits)

lemma exec_id:
  assumes "fst (execute_perpetual_order v sb sd amt px s) = Some hid"
  shows "hid = length (trades (snd (execute_perpetual_order v sb sd amt px s))) \<and> hid \<noteq> 0
     \<and> (\<exists>row. trades (snd (execute_perpetual_order v sb sd amt px s)) = trades s @ [row]
            \<and> tr_exchange row = ''Hyperliquid'' \<and> tr_asset row = sb)
     \<and> (\<exists>req. orders (snd (execute_perpetual_order v sb sd amt px s)) = orders s @ [req]
            \<and> accepted (exchange_order v (orders s) req))"
  using assms
  by (auto simp add: execute_perpetual_order_def record_trade_def Let_def
      split: option.splits venue_result.splits order_status.splits if_splits)

lemma exec_none:
  assumes "fst (execute_perpetual_order v sb sd amt px s) = None"
  shows "trades (snd (execute_perpetual_order v sb sd amt px s)) = trades s"
  using assms
  by (auto simp add: execute_perpetual_order_def record_trade_def Let_def
      split: option.splits venue_result.splits order_status.splits if_splits)

lemma exec_rejected:
  assumes "orders (snd (execute_perpetual_order v sb sd amt px s)) = orders s
      \<or> (\<exists>req. orders (snd (execute_perpetual_order v sb sd amt px s)) = orders s @ [req]
            \<and> \<not> accepted (exchange_order v (orders s) req))"
  shows "fst (execute_perpetual_order v sb sd amt px s) = None"
  using assms
  by (auto simp add: execute_perpetual_order_def record_trade_def Let_def
      split: option.splits venue_result.splits order_status.splits if_splits)


lemma pof_eq:
  "process_order_fill v fl s =
     (case sz_decimals v (hedging_symbol_of (base_asset fl)) of
        None \<Rightarrow> Inr (snd (origin_insert v fl s))
      | Some d \<Rightarrow>
          (case fst (hedge_call v fl d s) of
             None \<Rightarrow> Inr (snd (hedge_call v fl d s))
           | Some hid \<Rightarrow>
               if hid = 0 then Inr (snd (hedge_call v fl d s))
               else
                 (case fees_earned_asset fl of
                    None \<Rightarrow> Inl (TypeError, snd (hedge_call v fl d s))
                  | Some fee \<Rightarrow>
                      if float_of (price fl) * float_of (amount fl) = 0 then
                        Inl (ZeroDivisionError, snd (hedge_call v fl d s))
                      else
                        Inr (insert_trade_pair v
                               (pair_of v fl d (fst (origin_insert v fl s)) hid fee)
                               (snd (hedge_call v fl d s))))))"
  by (simp add: process_order_fill_def Let_def origin_insert_def adjusted_price_of_def
      fees_in_usdc_of_def pnl_of_def hedge_call_def pair_of_def split: option.splits)

lemma origin_insert_state:
  "snd (origin_insert v fl s)
     = (if db_accepts v (db_calls s)
        then s\<lparr>trades := trades s @ [origin_row fl], db_calls := Suc (db_calls s)\<rparr>
        else s\<lparr>db_calls := Suc (db_calls s)\<rparr>)"
  by (simp add: origin_insert_def record_trade_def origin_row_def)

lemma insert_trade_pair_frame:
  "trades (insert_trade_pair v row s) = trades s"
  "orders (insert_trade_pair v row s) = orders s"
  "leverage_updates (insert_trade_pair v row s) = leverage_updates s"
  "trade_pairs (insert_trade_pair v row s) = trade_pairs s
     \<or> trade_pairs (insert_trade_pair v row s) = trade_pairs s @ [row]"
  by (simp_all add: insert_trade_pair_def)

lemma origin_insert_frame:
  "orders (snd (origin_insert v fl s)) = orders s"
  "trade_pairs (snd (origin_insert v fl s)) = trade_pairs s"
  "leverage_updates (snd (origin_insert v fl s)) = leverage_updates s"
  by (simp_all add: origin_insert_state)

lemma origin_insert_trades:
  "db_accepts v (db_calls s) \<Longrightarrow> trades (snd (origin_insert v fl s)) = trades s @ [origin_row fl]"
  by (simp add: origin_insert_state)

lemma hedge_call_pairs: "trade_pairs (snd (hedge_call v fl d s)) = trade_pairs s"
  by (simp add: hedge_call_def exec_pairs origin_insert_frame)

lemma hedge_call_orders:
  "orders (snd (hedge_call v fl d s))
     = (case sz_decimals v (hedging_symbol_of (base_asset fl)) of
          None \<Rightarrow> orders s
        | Some d' \<Rightarrow>
            if round_size v (round_size v (float_of (amount fl)) d) d' = 0 then orders s
            else orders s @
              [\<lparr>coin = hedging_symbol_of (base_asset fl), is_buy = (side fl \<noteq> ''buy''),
                sz = round_size v (round_size v (float_of (amount fl)) d) d',
                limit_px = round_price v (adjusted_price_of v fl)\<rparr>])"
  by (simp add: hedge_call_def exec_orders origin_insert_frame split: option.splits)

lemma hedge_call_some:
  assumes "fst (hedge_call v fl d s) = Some hid"
  shows "hid = length (trades (snd (hedge_call v fl d s))) \<and> hid \<noteq> 0
     \<and> (\<exists>row. trades (snd (hedge_call v fl d s)) = trades (snd (origin_insert v fl s)) @ [row]
            \<and> tr_exchange row = ''Hyperliquid''
            \<and> tr_asset row = hedging_symbol_of (base_asset fl))
     \<and> (\<exists>req. orders (snd (hedge_call v fl d s)) = orders s @ [req]
            \<and> accepted (exchange_order v (orders s) req))"
  using exec_id[OF assms[unfolded hedge_call_def]]
  unfolding hedge_call_def origin_insert_frame .

lemma hedge_call_none:
  assumes "fst (hedge_call v fl d s) = None"
  shows "trades (snd (hedge_call v fl d s)) = trades (snd (origin_insert v fl s))"
  using exec_none[OF assms[unfolded hedge_call_def]] unfolding hedge_call_def .

lemma hedge_call_rejected:
  assumes "orders (snd (hedge_call v fl d s)) = orders s
      \<or> (\<exists>req. orders (snd (hedge_call v fl d s)) = orders s @ [req]
            \<and> \<not> accepted (exchange_order v (orders s) req))"
  shows "fst (hedge_call v fl d s) = None"
  using assms exec_rejected[of v "hedging_symbol_of (base_asset fl)"
      "if side fl = ''buy'' then ''sell'' else ''buy''"
      "round_size v (float_of (amount fl)) d" "adjusted_price_of v fl"
      "snd (origin_insert v fl s)"]
  unfolding hedge_call_def origin_insert_frame by blast


lemma pof_none:
  assumes "sz_decimals v (hedging_symbol_of (base_asset fl)) = None"
  shows "state_after (process_order_fill v fl s) = snd (origin_insert v fl s)"
  using assms by (simp add: pof_eq state_after_def)

lemma pof_no_id:
  assumes "sz_decimals v (hedging_symbol_of (base_asset fl)) = Some d"
    and "fst (hedge_call v fl d s) = None \<or> fst (hedge_call v fl d s) = Some 0"
  shows "state_after (process_order_fill v fl s) = snd (hedge_call v fl d s)"
  using assms by (auto simp add: pof_eq state_after_def)

lemma pof_id:
  assumes "sz_decimals v (hedging_symbol_of (base_asset fl)) = Some d"
    and "fst (hedge_call v fl d s) = Some hid" and "hid \<noteq> 0"
  shows "state_after (process_order_fill v fl s)
     = (case fees_earned_asset fl of
          None \<Rightarrow> snd (hedge_call v fl d s)
        | Some fee \<Rightarrow>
            if float_of (price fl) * float_of (amount fl) = 0 then snd (hedge_call v fl d s)
            else insert_trade_pair v (pair_of v fl d (fst (origin_insert v fl s)) hid fee)
                   (snd (hedge_call v fl d s)))"
  using assms by (simp add: pof_eq state_after_def split: option.splits)

lemma C5_aux:
  assumes S: "S = state_after (process_order_fill v fl s)"
  shows "(trade_pairs S = trade_pairs s
      \<or> (\<exists>p req. trade_pairs S = trade_pairs s @ [p]
            \<and> orders S = orders s @ [req]
            \<and> accepted (exchange_order v (orders s) req)
            \<and> hyperliquid_id p = length (trades S)
            \<and> hyperliquid_id p \<noteq> 0
            \<and> tr_exchange (last (trades S)) = ''Hyperliquid''))
   \<and> (db_accepts v (db_calls s) \<longrightarrow>
        take (Suc (length (trades s))) (trades S) = trades s @ [origin_row fl])
   \<and> ((orders S = orders s
        \<or> (\<exists>req. orders S = orders s @ [req]
              \<and> \<not> accepted (exchange_order v (orders s) req))) \<longrightarrow>
        trade_pairs S = trade_pairs s
        \<and> (db_accepts v (db_calls s) \<longrightarrow> trades S = trades s @ [origin_row fl]))"
proof (cases "sz_decimals v (hedging_symbol_of (base_asset fl))")
  case None
  then have "S = snd (origin_insert v fl s)" using S pof_none by simp
  then show ?thesis by (simp add: origin_insert_frame origin_insert_trades)
next
  case (Some d)
  let ?h = "hedge_call v fl d s"
  show ?thesis
  proof (cases "fst ?h")
    case None
    then have "S = snd ?h" using S pof_no_id[OF Some] by simp
    then show ?thesis
      using hedge_call_none[OF None]
      by (simp add: hedge_call_pairs origin_insert_trades)
  next
    case (Some hid)
    note hs = hedge_call_some[OF Some]
    from hs obtain row where row: "trades (snd ?h) = trades (snd (origin_insert v fl s)) @ [row]"
      "tr_exchange row = ''Hyperliquid''" by blast
    from hs obtain req where req: "orders (snd ?h) = orders s @ [req]"
      "accepted (exchange_order v (orders s) req)" by blast
    from hs have hid: "hid = length (trades (snd ?h))" "hid \<noteq> 0" by blast+
    have S_cases: "S = snd ?h
        \<or> (\<exists>p. S = insert_trade_pair v p (snd ?h) \<and> hyperliquid_id p = hid)"
      using S pof_id[OF \<open>sz_decimals v (hedging_symbol_of (base_asset fl)) = Some d\<close> Some hid(2)]
      by (cases "fees_earned_asset fl") (auto simp add: pair_of_def)
    have tr: "trades S = trades (snd ?h)" and od: "orders S = orders (snd ?h)"
      using S_cases by (auto simp add: insert_trade_pair_frame)
    have tp: "trade_pairs S = trade_pairs s
        \<or> (\<exists>p. trade_pairs S = trade_pairs s @ [p] \<and> hyperliquid_id p = hid)"
      using S_cases insert_trade_pair_frame(4)[of v _ "snd ?h"]
      by (auto simp add: hedge_call_pairs)
    have A: "trade_pairs S = trade_pairs s
      \<or> (\<exists>p req. trade_pairs S = trade_pairs s @ [p]
            \<and> orders S = orders s @ [req]
            \<and> accepted (exchange_order v (orders s) req)
            \<and> hyperliquid_id p = length (trades S)
            \<and> hyperliquid_id p \<noteq> 0
            \<and> tr_exchange (last (trades S)) = ''Hyperliquid'')"
      using tp tr od row req hid by auto
    have B: "db_accepts v (db_calls s) \<longrightarrow>
        take (Suc (length (trades s))) (trades S) = trades s @ [origin_row fl]"
      using tr row by (simp add: origin_insert_trades)
    have C: "\<not> (orders S = orders s
        \<or> (\<exists>req. orders S = orders s @ [req]
              \<and> \<not> accepted (exchange_order v (orders s) req)))"
      using od req by auto
    show ?thesis using A B C by blast
  qed
qed

lemma pof_appended_pair:
  assumes "trade_pairs (state_after (process_order_fill v fl s)) = trade_pairs s @ [p]"
  shows "\<exists>d hid fee. sz_decimals v (hedging_symbol_of (base_asset fl)) = Some d
     \<and> fst (hedge_call v fl d s) = Some hid \<and> hid \<noteq> 0
     \<and> fees_earned_asset fl = Some fee
     \<and> float_of (price fl) * float_of (amount fl) \<noteq> 0
     \<and> p = pair_of v fl d (fst (origin_insert v fl s)) hid fee"
proof (cases "sz_decimals v (hedging_symbol_of (base_asset fl))")
  case None
  then show ?thesis using assms pof_none[OF None, of s] by (simp add: origin_insert_frame)
next
  case (Some d)
  let ?h = "hedge_call v fl d s"
  show ?thesis
  proof (cases "fst ?h = None \<or> fst ?h = Some 0")
    case True
    then show ?thesis using assms pof_no_id[OF Some True] by (simp add: hedge_call_pairs)
  next
    case False
    then obtain hid where hid: "fst ?h = Some hid" "hid \<noteq> 0" by auto
    note st = pof_id[OF Some hid]
    show ?thesis
    proof (cases "fees_earned_asset fl")
      case None
      then show ?thesis using assms st by (simp add: hedge_call_pairs)
    next
      case (Some fee)
      show ?thesis
      proof (cases "float_of (price fl) * float_of (amount fl) = 0")
        case True
        then show ?thesis using assms st Some by (simp add: hedge_call_pairs)
      next
        case False
        have "state_after (process_order_fill v fl s)
            = insert_trade_pair v (pair_of v fl d (fst (origin_insert v fl s)) hid fee) (snd ?h)"
          using st Some False by simp
        then have "p = pair_of v fl d (fst (origin_insert v fl s)) hid fee"
          using assms insert_trade_pair_frame(4)[of v
              "pair_of v fl d (fst (origin_insert v fl s)) hid fee" "snd ?h"]
          by (auto simp add: hedge_call_pairs)
        then show ?thesis
          using \<open>sz_decimals v (hedging_symbol_of (base_asset fl)) = Some d\<close> hid Some False
          by simp
      qed
    qed
  qed
qed


lemmas example_eval =
  example_engine_def empty_engine_state_def example_buy_def process_order_fill_def
  execute_perpetual_order_def record_trade_def insert_trade_pair_def round_size_def
  round_price_def adjustment_bps_of_def hedging_symbol_of_def state_after_def Let_def
  origin_row_def

text \<open>
  Claim C5. A row of \<open>trade_pairs\<close> is appended only together with an order that
  the venue answered with a resting or filled status, and it carries the id of the
  Hyperliquid trade row recorded for it. When the store accepts the insert, the
  Chainflip row of the fill is the first row the call adds, whatever the hedge does.
  When no order is sent, or the venue does not accept it (rejection, no result, an
  exception), no pair is appended and the Chainflip row is the only row added.
\<close>

theorem C5_pair_only_with_hedge_id:
  "(trade_pairs (state_after (process_order_fill v fl s)) = trade_pairs s
      \<or> (\<exists>p req. trade_pairs (state_after (process_order_fill v fl s)) = trade_pairs s @ [p]
            \<and> orders (state_after (process_order_fill v fl s)) = orders s @ [req]
            \<and> accepted (exchange_order v (orders s) req)
            \<and> hyperliquid_id p = length (trades (state_after (process_order_fill v fl s)))
            \<and> hyperliquid_id p \<noteq> 0
            \<and> tr_exchange (last (trades (state_after (process_order_fill v fl s))))
                = ''Hyperliquid''))
   \<and> (db_accepts v (db_calls s) \<longrightarrow>
        take (Suc (length (trades s))) (trades (state_after (process_order_fill v fl s)))
          = trades s @ [origin_row fl])
   \<and> ((orders (state_after (process_order_fill v fl s)) = orders s
        \<or> (\<exists>req. orders (state_after (process_order_fill v fl s)) = orders s @ [req]
              \<and> \<not> accepted (exchange_order v (orders s) req))) \<longrightarrow>
        trade_pairs (state_after (process_order_fill v fl s)) = trade_pairs s
        \<and> (db_accepts v (db_calls s) \<longrightarrow>
             trades (state_after (process_order_fill v fl s)) = trades s @ [origin_row fl]))"
  using C5_aux[OF refl, of v fl s] .


theorem C5_pair_only_with_hedge_id_witness:
  "trades (state_after (process_order_fill (example_engine NotOk) (example_buy ''ETH'')
       empty_engine_state)) = [origin_row (example_buy ''ETH'')]
   \<and> trade_pairs (state_after (process_order_fill (example_engine NotOk) (example_buy ''ETH'')
       empty_engine_state)) = []
   \<and> map hyperliquid_id (trade_pairs (state_after (process_order_fill
       (example_engine (Ok [Resting 7])) (example_buy ''ETH'') empty_engine_state))) = [2]"
  using C5_pair_only_with_hedge_id[of "example_engine NotOk" "example_buy ''ETH''"
      empty_engine_state]
    C5_pair_only_with_hedge_id[of "example_engine (Ok [Resting 7])" "example_buy ''ETH''"
      empty_engine_state]
  by (simp add: example_eval)


text \<open>
  Claim C7. A row appended to \<open>trade_pairs\<close> records the adjusted price
  \<open>round_price(price * (1 + bps / 10000))\<close> as the hedge price; its pnl is
  \<open>(adjusted - origin) * amount\<close> for an origin buy and \<open>(origin - adjusted) * amount\<close>
  otherwise, plus the fee (times the origin price when the fee is in the traded
  asset); its pnl percentage is \<open>pnl / (origin * amount) * 100\<close>. An instance: the
  origin buy at 100 hedged at 99.5 for the amount 1 with no fee has the pnl -0.5.
\<close>

theorem C7_recorded_pnl:
  assumes "trade_pairs (state_after (process_order_fill v fl s)) = trade_pairs s @ [p]"
  shows "\<exists>fee. fees_earned_asset fl = Some fee
     \<and> hyperliquid_price p
         = round_price v (float_of (price fl) *
             (1 + (if side fl = ''buy''
                   then adjustment_bps_of v (hedging_symbol_of (base_asset fl)) ''sell'' (- 5)
                   else adjustment_bps_of v (hedging_symbol_of (base_asset fl)) ''buy'' 16)
                  / 10000))
     \<and> pnl p
         = (if side fl = ''buy''
            then (hyperliquid_price p - float_of (price fl)) * float_of (amount fl)
            else (float_of (price fl) - hyperliquid_price p) * float_of (amount fl))
           + (if fees_asset fl = Some (base_asset fl) then fee * float_of (price fl) else fee)
     \<and> float_of (price fl) * float_of (amount fl) \<noteq> 0
     \<and> pnl_percentage p = pnl p / (float_of (price fl) * float_of (amount fl)) * 100"
  using pof_appended_pair[OF assms]
  by (auto simp add: pair_of_def pnl_of_def fees_in_usdc_of_def adjusted_price_of_def)

theorem C7_recorded_pnl_witness:
  "\<exists>p. trade_pairs (state_after (process_order_fill (example_engine (Ok [Resting 7]))
            (example_buy ''ETH'') empty_engine_state)) = [p]
      \<and> chainflip_price p = 100 \<and> hyperliquid_price p = 99.5 \<and> chainflip_amount p = 1
      \<and> pnl p = - 0.5 \<and> pnl_percentage p = - 0.5"
proof -
  let ?S = "state_after (process_order_fill (example_engine (Ok [Resting 7]))
            (example_buy ''ETH'') empty_engine_state)"
  obtain p where p: "trade_pairs ?S = trade_pairs empty_engine_state @ [p]"
    "chainflip_price p = 100" "chainflip_amount p = 1"
    by (simp add: example_eval)
  from C7_recorded_pnl[OF p(1)] have "hyperliquid_price p = 99.5 \<and> pnl p = - 0.5
      \<and> pnl_percentage p = - 0.5"
    by (simp add: example_eval)
  with p show ?thesis by (simp add: empty_engine_state_def)
qed

text \<open>
  Claim C10. For a fill of \<open>ARBITRUM_ETH\<close> the order sent to the venue, if any, is
  on the coin \<open>ETH\<close>, sized with the size decimals of \<open>ETH\<close> and priced with the
  adjustment of \<open>ETH\<close>; the Chainflip row and the pair row keep the asset
  \<open>ARBITRUM_ETH\<close>. In the maker, every update of the prices that completes leaves
  the price of \<open>ARBITRUM_ETH\<close> equal to the price of \<open>ETH\<close>.
\<close>

theorem C10_arbitrum_eth_hedged_as_eth:
  assumes "base_asset fl = ''ARBITRUM_ETH''"
  shows "orders (state_after (process_order_fill v fl s))
     = (case sz_decimals v ''ETH'' of
          None \<Rightarrow> orders s
        | Some d \<Rightarrow>
            if round_size v (round_size v (float_of (amount fl)) d) d = 0 then orders s
            else orders s @
              [\<lparr>coin = ''ETH'', is_buy = (side fl \<noteq> ''buy''),
                sz = round_size v (round_size v (float_of (amount fl)) d) d,
                limit_px = round_price v (round_price v (float_of (price fl) *
                  (1 + (if side fl = ''buy'' then adjustment_bps_of v ''ETH'' ''sell'' (- 5)
                        else adjustment_bps_of v ''ETH'' ''buy'' 16) / 10000)))\<rparr>])
   \<and> (db_accepts v (db_calls s) \<longrightarrow>
        take (Suc (length (trades s))) (trades (state_after (process_order_fill v fl s)))
          = trades s @ [origin_row fl]
        \<and> tr_asset (origin_row fl) = ''ARBITRUM_ETH'')
   \<and> (\<forall>p. trade_pairs (state_after (process_order_fill v fl s)) = trade_pairs s @ [p]
          \<longrightarrow> tp_asset p = ''ARBITRUM_ETH'')
   \<and> (\<forall>mids hp hp'. update_prices mids hp = (None, hp')
          \<longrightarrow> hp' ''ARBITRUM_ETH'' = hp' ''ETH'')"
proof -
  let ?S = "state_after (process_order_fill v fl s)"
  have hs: "hedging_symbol_of (base_asset fl) = ''ETH''"
    using assms by (simp add: hedging_symbol_of_def)
  have od: "orders ?S
     = (case sz_decimals v ''ETH'' of
          None \<Rightarrow> orders s
        | Some d \<Rightarrow>
            if round_size v (round_size v (float_of (amount fl)) d) d = 0 then orders s
            else orders s @
              [\<lparr>coin = ''ETH'', is_buy = (side fl \<noteq> ''buy''),
                sz = round_size v (round_size v (float_of (amount fl)) d) d,
                limit_px = round_price v (round_price v (float_of (price fl) *
                  (1 + (if side fl = ''buy'' then adjustment_bps_of v ''ETH'' ''sell'' (- 5)
                        else adjustment_bps_of v ''ETH'' ''buy'' 16) / 10000)))\<rparr>])"
  proof (cases "sz_decimals v ''ETH''")
    case None
    then show ?thesis using pof_none[of v fl s] hs by (simp add: origin_insert_frame)
  next
    case (Some d)
    let ?h = "hedge_call v fl d s"
    have "orders ?S = orders (snd ?h)"
    proof (cases "fst ?h = None \<or> fst ?h = Some 0")
      case True
      then show ?thesis using pof_no_id[of v fl d s] Some hs by simp
    next
      case False
      then obtain hid where hid: "fst ?h = Some hid" "hid \<noteq> 0" by auto
      show ?thesis
        using pof_id[of v fl d s hid] Some hs hid
        by (simp add: insert_trade_pair_frame split: option.splits)
    qed
    then show ?thesis
      using hedge_call_orders[of v fl d s] Some hs by (simp add: adjusted_price_of_def)
  qed
  have tr: "db_accepts v (db_calls s) \<longrightarrow>
        take (Suc (length (trades s))) (trades ?S) = trades s @ [origin_row fl]
        \<and> tr_asset (origin_row fl) = ''ARBITRUM_ETH''"
    using C5_aux[OF refl, of v fl s] assms by (simp add: origin_row_def)
  have tp: "\<forall>p. trade_pairs ?S = trade_pairs s @ [p] \<longrightarrow> tp_asset p = ''ARBITRUM_ETH''"
    using pof_appended_pair[of v fl s] assms by (auto simp add: pair_of_def)
  have up: "\<forall>mids hp hp'. update_prices mids hp = (None, hp')
          \<longrightarrow> hp' ''ARBITRUM_ETH'' = hp' ''ETH''"
    by (auto simp add: update_prices_def Let_def split: sum.splits)
  show ?thesis using od tr tp up by blast
qed

theorem C10_arbitrum_eth_hedged_as_eth_witness:
  "map coin (orders (state_after (process_order_fill (example_engine (Ok [Resting 7]))
       (example_buy ''ARBITRUM_ETH'') empty_engine_state))) = [''ETH'']
   \<and> map tr_asset (trades (state_after (process_order_fill (example_engine (Ok [Resting 7]))
       (example_buy ''ARBITRUM_ETH'') empty_engine_state))) = [''ARBITRUM_ETH'', ''ETH'']
   \<and> map tp_asset (trade_pairs (state_after (process_order_fill
       (example_engine (Ok [Resting 7])) (example_buy ''ARBITRUM_ETH'') empty_engine_state)))
       = [''ARBITRUM_ETH'']
   \<and> snd (update_prices example_mids (\<lambda>a. 0)) ''ARBITRUM_ETH'' = 2000"
  using C10_arbitrum_eth_hedged_as_eth[of "example_buy ''ARBITRUM_ETH''"
      "example_engine (Ok [Resting 7])" empty_engine_state]
  by (simp add: example_eval example_mids_def update_prices_def float_mid_def)

section \<open>Properties of the maker\<close>

lemma handle_limit_order_no_zero_division:
  "handle_limit_order ord \<noteq> Inl ZeroDivisionError"
  by (simp add: handle_limit_order_def py_div_def Let_def split: option.splits)

lemma handle_limit_order_core:
  "(case (if ac \<noteq> 0
          then (case py_div uc ac of Inl err \<Rightarrow> Inl err | Inr q \<Rightarrow> Inr \<bar>q\<bar>)
          else Inr 0) of
      Inl err \<Rightarrow> Inl err
    | Inr ap \<Rightarrow>
        (case (if ap \<noteq> 0 then py_div (\<bar>uc\<bar> * 0.0005) ap else Inr 0) of
           Inl err \<Rightarrow> Inl err
         | Inr fa \<Rightarrow>
             Inr (Some \<lparr>lp_address = a, od_base_asset = b, od_quote_asset = q',
                        od_side = sd', asset_change = ac, usdc_change = uc,
                        average_price = ap, od_fees_asset = fa,
                        fees_usdc = \<bar>uc\<bar> * 0.0005\<rparr>)))
   = Inr (Some \<lparr>lp_address = a, od_base_asset = b, od_quote_asset = q',
                od_side = sd', asset_change = ac, usdc_change = uc,
                average_price = (if ac = 0 then 0 else \<bar>uc / ac\<bar>),
                od_fees_asset =
                  (if (if ac = 0 then 0 else \<bar>uc / ac\<bar>) = 0 then 0
                   else \<bar>uc\<bar> * 0.0005 / (if ac = 0 then 0 else \<bar>uc / ac\<bar>)),
                fees_usdc = \<bar>uc\<bar> * 0.0005\<rparr>)"
  by (simp add: py_div_def)

lemma handle_limit_order_supported:
  assumes "lo_base_asset ord \<in> {''ETH'', ''BTC'', ''DOT'', ''ARBITRUM_ETH''}"
    and "lo_quote_asset ord = ''USDC''" and "sold ord = Some sd" and "bought ord = Some bt"
  shows "\<exists>r. handle_limit_order ord = Inr (Some r)
             \<and> asset_change r
                 = (if lo_base_asset ord = ''ETH'' \<or> lo_base_asset ord = ''ARBITRUM_ETH''
                    then real_of_int (if lo_side ord = ''sell'' then - sd else bt) / 10 ^ 18
                    else if lo_base_asset ord = ''BTC''
                    then real_of_int (if lo_side ord = ''sell'' then - sd else bt) / 10 ^ 8
                    else real_of_int (if lo_side ord = ''sell'' then - sd else bt) / 10 ^ 10)
             \<and> usdc_change r = real_of_int (if lo_side ord = ''sell'' then bt else - sd) / 10 ^ 6
             \<and> average_price r
                 = (if asset_change r = 0 then 0 else \<bar>usdc_change r / asset_change r\<bar>)
             \<and> fees_usdc r = 0.0005 * \<bar>usdc_change r\<bar>
             \<and> od_fees_asset r
                 = (if average_price r = 0 then 0 else fees_usdc r / average_price r)"
proof -
  have sup: "(lo_base_asset ord \<in> {''ETH'', ''BTC'', ''DOT'', ''ARBITRUM_ETH''}
      \<and> lo_quote_asset ord = ''USDC'') = True"
    using assms(1,2) by simp
  define ac where "ac = (if lo_base_asset ord = ''ETH'' \<or> lo_base_asset ord = ''ARBITRUM_ETH''
                    then real_of_int (if lo_side ord = ''sell'' then - sd else bt) / 10 ^ 18
                    else if lo_base_asset ord = ''BTC''
                    then real_of_int (if lo_side ord = ''sell'' then - sd else bt) / 10 ^ 8
                    else real_of_int (if lo_side ord = ''sell'' then - sd else bt) / 10 ^ 10)"
  define uc where "uc = real_of_int (if lo_side ord = ''sell'' then bt else - sd) / 10 ^ 6"
  have eq: "handle_limit_order ord
      = Inr (Some \<lparr>lp_address = lp ord, od_base_asset = lo_base_asset ord,
                od_quote_asset = lo_quote_asset ord,
                od_side = lo_side ord, asset_change = ac, usdc_change = uc,
                average_price = (if ac = 0 then 0 else \<bar>uc / ac\<bar>),
                od_fees_asset =
                  (if (if ac = 0 then 0 else \<bar>uc / ac\<bar>) = 0 then 0
                   else \<bar>uc\<bar> * 0.0005 / (if ac = 0 then 0 else \<bar>uc / ac\<bar>)),
                fees_usdc = \<bar>uc\<bar> * 0.0005\<rparr>)"
    unfolding handle_limit_order_def Let_def assms(3,4) option.case sup if_True
      handle_limit_order_core ac_def uc_def
    by (rule refl)
  show ?thesis
    unfolding eq ac_def[symmetric] uc_def[symmetric] by simp
qed

text \<open>
  Claim C9. \<open>handle_limit_order\<close> never raises \<open>ZeroDivisionError\<close>. For a fill of a
  supported pair whose amounts parse, the average price is \<open>|usdc_change / asset_change|\<close>,
  and 0 when the asset change is 0; the fee is 0.0005 times \<open>|usdc_change|\<close>; the fee in
  the asset is the fee over the average price, and 0 when the average price is 0.
\<close>

theorem C9_handle_limit_order:
  "handle_limit_order ord \<noteq> Inl ZeroDivisionError
   \<and> (lo_base_asset ord \<in> {''ETH'', ''BTC'', ''DOT'', ''ARBITRUM_ETH''}
        \<and> lo_quote_asset ord = ''USDC'' \<and> sold ord = Some sd \<and> bought ord = Some bt
      \<longrightarrow> (\<exists>r. handle_limit_order ord = Inr (Some r)
             \<and> asset_change r
                 = (if lo_base_asset ord = ''ETH'' \<or> lo_base_asset ord = ''ARBITRUM_ETH''
                    then real_of_int (if lo_side ord = ''sell'' then - sd else bt) / 10 ^ 18
                    else if lo_base_asset ord = ''BTC''
                    then real_of_int (if lo_side ord = ''sell'' then - sd else bt) / 10 ^ 8
                    else real_of_int (if lo_side ord = ''sell'' then - sd else bt) / 10 ^ 10)
             \<and> usdc_change r = real_of_int (if lo_side ord = ''sell'' then bt else - sd) / 10 ^ 6
             \<and> average_price r
                 = (if asset_change r = 0 then 0 else \<bar>usdc_change r / asset_change r\<bar>)
             \<and> fees_usdc r = 0.0005 * \<bar>usdc_change r\<bar>
             \<and> od_fees_asset r
                 = (if average_price r = 0 then 0 else fees_usdc r / average_price r)))"
  using handle_limit_order_no_zero_division[of ord] handle_limit_order_supported[of ord sd bt]
  by blast

theorem C9_handle_limit_order_witness:
  "\<exists>r. handle_limit_order example_order = Inr (Some r)
      \<and> average_price r = 2000 \<and> fees_usdc r = 1 \<and> od_fees_asset r = 1 / 2000"
  using C9_handle_limit_order[of example_order "10 ^ 18" "2000 * 10 ^ 6"]
  by (auto simp add: example_order_def)







lemma requote_quiet:
  assumes "\<not> exceeds change (price_change_threshold c)" "snd st a \<noteq> 0"
  shows "requote c a i mid change st
     = (fst st, if fst st \<noteq> [] then (snd st)(a := mid) else snd st)"
  using assms by (simp add: requote_def Let_def)

lemma requote_both:
  assumes "exceeds change (price_change_threshold c)" "0 < sell_amount c a" "0 < buy_amount c a"
  shows "requote c a i mid change st
     = (fst st @ [\<lparr>t_order_type = ''sell'', t_price = mid * sell_factor c a,
                    t_amount = sell_amount c a, t_asset = a, t_order_id = i\<rparr>,
                  \<lparr>t_order_type = ''buy'', t_price = mid * buy_factor c a,
                    t_amount = buy_amount c a, t_asset = a, t_order_id = Suc i\<rparr>],
        (snd st)(a := mid))"
  using assms by (simp add: requote_def Let_def)

text \<open>
  Claim C4 fails on the code. After the block of \<open>ETH\<close> appended its two orders,
  the list \<open>tasks\<close> is not empty, so the test \<open>if tasks\<close> of the block of
  \<open>BTC\<close> succeeds although that block appended nothing: \<open>last_order_prices['BTC']\<close>
  moves from 50000 to 50001 in an iteration that attempts no order for \<open>BTC\<close>.
\<close>

theorem C4_shared_task_list:
  "map t_asset (fst (market_making_iteration example_config example_prices
       example_last_order_prices)) = [''ETH'', ''ETH'', ''ARBITRUM_ETH'', ''ARBITRUM_ETH'']
   \<and> example_last_order_prices ''BTC'' = 50000
   \<and> snd (market_making_iteration example_config example_prices example_last_order_prices)
        ''BTC'' = 50001"
proof -
  let ?c = example_config and ?l = example_last_order_prices
  have p: "example_prices ''ETH'' = 1100" "example_prices ''BTC'' = 50001"
    "example_prices ''DOT'' = 5" "example_prices ''ARBITRUM_ETH'' = 1100"
    by (simp_all add: example_prices_def)
  have l: "?l ''ETH'' = 1000" "?l ''BTC'' = 50000" "?l ''DOT'' = 5" "?l ''ARBITRUM_ETH'' = 1000"
    by (simp_all add: example_last_order_prices_def)
  have ch: "exceeds (price_change 1100 1000) (price_change_threshold ?c)"
    "\<not> exceeds (price_change 50001 50000) (price_change_threshold ?c)"
    "\<not> exceeds (price_change 5 5) (price_change_threshold ?c)"
    by (simp_all add: exceeds_def price_change_def example_config_def)
  have am: "0 < sell_amount ?c a" "0 < buy_amount ?c a" for a
    by (simp_all add: example_config_def)
  obtain t1 where e1: "requote ?c ''ETH'' 1 1100 (price_change 1100 1000) ([], ?l) = (t1, ?l(''ETH'' := 1100))"
    and a1: "map t_asset t1 = [''ETH'', ''ETH'']"
    using requote_both[where a="''ETH''" and i=1 and mid=1100 and st="([], ?l)", OF ch(1) am] by simp
  have n1: "t1 \<noteq> []" using a1 by auto
  have e2: "requote ?c ''BTC'' 3 50001 (price_change 50001 50000) (t1, ?l(''ETH'' := 1100))
      = (t1, ?l(''ETH'' := 1100, ''BTC'' := 50001))"
    using requote_quiet[where a="''BTC''" and i=3 and mid=50001 and st="(t1, ?l(''ETH'' := 1100))", OF ch(2)] n1 l
    by simp
  have e3: "requote ?c ''DOT'' 5 5 (price_change 5 5) (t1, ?l(''ETH'' := 1100, ''BTC'' := 50001))
      = (t1, ?l(''ETH'' := 1100, ''BTC'' := 50001, ''DOT'' := 5))"
    using requote_quiet[where a="''DOT''" and i=5 and mid=5 and st="(t1, ?l(''ETH'' := 1100, ''BTC'' := 50001))", OF ch(3)] n1 l
    by simp
  obtain t4 where e4: "requote ?c ''ARBITRUM_ETH'' 7 1100 (price_change 1100 1000)
        (t1, ?l(''ETH'' := 1100, ''BTC'' := 50001, ''DOT'' := 5))
      = (t4, ?l(''ETH'' := 1100, ''BTC'' := 50001, ''DOT'' := 5, ''ARBITRUM_ETH'' := 1100))"
    and a4: "map t_asset t4 = [''ETH'', ''ETH'', ''ARBITRUM_ETH'', ''ARBITRUM_ETH'']"
    using requote_both[where a="''ARBITRUM_ETH''" and i=7 and mid=1100
        and st="(t1, ?l(''ETH'' := 1100, ''BTC'' := 50001, ''DOT'' := 5))", OF ch(1) am] a1 by simp
  have "market_making_iteration ?c example_prices ?l
      = (t4, ?l(''ETH'' := 1100, ''BTC'' := 50001, ''DOT'' := 5, ''ARBITRUM_ETH'' := 1100))"
    unfolding market_making_iteration_def Let_def p l e1 e2 e3 e4 by simp
  then show ?thesis using a4 l by simp
qed

end
